theory Spec2Isabelle
  imports Main "HOL-Library.Word" "HOL-Library.Sublist"
begin

unbundle bit_operations_syntax

section \<open>Go library functions used by \<^verbatim>\<open>pkg/cli/setup.go\<close>\<close>

subsection \<open>Paths: \<^verbatim>\<open>path.Clean\<close>, \<^verbatim>\<open>path.Join\<close>, \<^verbatim>\<open>filepath.Base\<close>, \<^verbatim>\<open>filepath.IsAbs\<close>\<close>

text \<open>
  Go strings are byte sequences; a path is a \<^typ>\<open>string\<close>. The program runs on a
  Unix host, where \<^verbatim>\<open>filepath\<close> and \<^verbatim>\<open>path\<close> agree: the separator is the slash
  and there is no volume name.
\<close>

type_synonym path = string

definition slash :: char where
  "slash = CHR ''/''"

text \<open>The elements of a path: the pieces between slashes, empty ones included.\<close>

fun split_slash :: "string \<Rightarrow> string list" where
  "split_slash [] = [[]]"
| "split_slash (c # cs) =
     (if c = slash then [] # split_slash cs
      else (case split_slash cs of
              [] \<Rightarrow> [[c]]
            | x # xs \<Rightarrow> (c # x) # xs))"

fun join_slash :: "string list \<Rightarrow> string" where
  "join_slash [] = []"
| "join_slash [x] = x"
| "join_slash (x # y # ys) = x @ slash # join_slash (y # ys)"

definition IsAbs :: "path \<Rightarrow> bool" where
  "IsAbs p = (case p of [] \<Rightarrow> False | c # _ \<Rightarrow> c = slash)"

text \<open>
  \<^verbatim>\<open>Clean\<close> walks the elements left to right and keeps the output built so far
  (here: the list of kept elements, last one first). An empty element and \<^verbatim>\<open>.\<close>
  are skipped. At \<^verbatim>\<open>..\<close> the last kept element is dropped when there is one that
  is not itself \<^verbatim>\<open>..\<close>; otherwise \<^verbatim>\<open>..\<close> is kept in a relative path and skipped in
  a rooted one.
\<close>

fun clean_elems :: "bool \<Rightarrow> string list \<Rightarrow> string list \<Rightarrow> string list" where
  "clean_elems rooted out [] = rev out"
| "clean_elems rooted out (e # es) =
     (if e = [] \<or> e = ''.'' then clean_elems rooted out es
      else if e = ''..'' then
        (case out of
           [] \<Rightarrow> if rooted then clean_elems rooted [] es
                 else clean_elems rooted [''..''] es
         | o1 # os \<Rightarrow> if o1 = ''..'' then clean_elems rooted (''..'' # out) es
                     else clean_elems rooted os es)
      else clean_elems rooted (e # out) es)"

definition Clean :: "path \<Rightarrow> path" where
  "Clean p =
     (if p = [] then ''.''
      else if IsAbs p then slash # join_slash (clean_elems True [] (split_slash p))
      else (case clean_elems False [] (split_slash p) of
              [] \<Rightarrow> ''.''
            | es \<Rightarrow> join_slash es))"

text \<open>\<^verbatim>\<open>path.Join\<close> of two elements, as every call of the program has.\<close>

definition Join :: "path \<Rightarrow> string \<Rightarrow> path" where
  "Join a b =
     (if a = [] \<and> b = [] then []
      else if a = [] then Clean b
      else Clean (a @ slash # b))"

definition strip_trailing_slashes :: "string \<Rightarrow> string" where
  "strip_trailing_slashes p = rev (dropWhile (\<lambda>c. c = slash) (rev p))"

definition Base :: "path \<Rightarrow> string" where
  "Base p =
     (if p = [] then ''.''
      else let q = strip_trailing_slashes p in
        if q = [] then ''/''
        else rev (takeWhile (\<lambda>c. c \<noteq> slash) (rev q)))"

subsection \<open>Strings: \<^verbatim>\<open>strings.ToLower\<close>, \<^verbatim>\<open>strings.TrimSpace\<close>\<close>

text \<open>
  \<^verbatim>\<open>ToLower\<close> on the ASCII letters. Bytes from 128 on are left as they are: the
  lower-case mapping of the non-ASCII Unicode letters is not part of this model.
\<close>

definition lower_char :: "char \<Rightarrow> char" where
  "lower_char c =
     (let n = (of_char c :: nat) in
      if 65 \<le> n \<and> n \<le> 90 then char_of (n + 32) else c)"

definition ToLower :: "string \<Rightarrow> string" where
  "ToLower s = map lower_char s"

text \<open>
  \<^verbatim>\<open>TrimSpace\<close> removes leading and trailing white space as Unicode defines it.
  On the UTF-8 bytes these are the six ASCII characters tab, line feed, vertical tab,
  form feed, carriage return and space, and the encodings of U+0085, U+00A0, U+1680,
  U+2000 to U+200A, U+2028, U+2029, U+202F, U+205F and U+3000.
\<close>

definition space_encodings :: "nat list list" where
  "space_encodings =
     [[9], [10], [11], [12], [13], [32],
      [194, 133], [194, 160], [225, 154, 128],
      [226, 128, 128], [226, 128, 129], [226, 128, 130], [226, 128, 131],
      [226, 128, 132], [226, 128, 133], [226, 128, 134], [226, 128, 135],
      [226, 128, 136], [226, 128, 137], [226, 128, 138],
      [226, 128, 168], [226, 128, 169], [226, 128, 175],
      [226, 129, 159], [227, 128, 128]]"

definition leading_space :: "nat list \<Rightarrow> nat" where
  "leading_space bs =
     (case filter (\<lambda>e. prefix e bs) space_encodings of
        [] \<Rightarrow> 0
      | e # _ \<Rightarrow> length e)"

definition trailing_space :: "nat list \<Rightarrow> nat" where
  "trailing_space bs =
     (case filter (\<lambda>e. suffix e bs) space_encodings of
        [] \<Rightarrow> 0
      | e # _ \<Rightarrow> length e)"

function trim_left :: "string \<Rightarrow> string" where
  "trim_left s =
     (let k = leading_space (map of_char s) in
      if k = 0 \<or> s = [] then s else trim_left (drop k s))"
  by pat_completeness auto
termination
  by (relation "measure length") auto

function trim_right :: "string \<Rightarrow> string" where
  "trim_right s =
     (let k = trailing_space (map of_char s) in
      if k = 0 \<or> s = [] then s else trim_right (take (length s - k) s))"
  by pat_completeness auto
termination
  by (relation "measure length") auto

declare trim_left.simps [simp del] trim_right.simps [simp del]

definition TrimSpace :: "string \<Rightarrow> string" where
  "TrimSpace s = trim_right (trim_left s)"

subsection \<open>\<^verbatim>\<open>crypto/md5\<close> and \<^verbatim>\<open>encoding/hex\<close>\<close>

text \<open>
  \<^verbatim>\<open>md5.Sum\<close> is the MD5 message digest of RFC 1321 on 32-bit words; bytes are
  natural numbers below 256.
\<close>

type_synonym u32 = "32 word"

definition le_bytes :: "nat \<Rightarrow> nat \<Rightarrow> nat list" where
  "le_bytes k n = map (\<lambda>i. (n div 256 ^ i) mod 256) [0..<k]"

definition le_word :: "nat list \<Rightarrow> u32" where
  "le_word bs = of_nat (foldr (\<lambda>b acc. b + 256 * acc) bs 0)"

definition md5_pad :: "nat list \<Rightarrow> nat list" where
  "md5_pad bs =
     bs @ [128] @ replicate ((119 - length bs mod 64) mod 64) 0
        @ le_bytes 8 ((8 * length bs) mod 2 ^ 64)"

function chunks :: "nat \<Rightarrow> 'a list \<Rightarrow> 'a list list" where
  "chunks n xs = (if n = 0 \<or> xs = [] then [] else take n xs # chunks n (drop n xs))"
  by pat_completeness auto
termination
  by (relation "measure (\<lambda>(n, xs). length xs)") auto

declare chunks.simps [simp del]

definition md5_s :: "nat list" where
  "md5_s =
     [7, 12, 17, 22, 7, 12, 17, 22, 7, 12, 17, 22, 7, 12, 17, 22,
      5, 9, 14, 20, 5, 9, 14, 20, 5, 9, 14, 20, 5, 9, 14, 20,
      4, 11, 16, 23, 4, 11, 16, 23, 4, 11, 16, 23, 4, 11, 16, 23,
      6, 10, 15, 21, 6, 10, 15, 21, 6, 10, 15, 21, 6, 10, 15, 21]"

definition md5_K :: "u32 list" where
  "md5_K =
     [0xd76aa478, 0xe8c7b756, 0x242070db, 0xc1bdceee,
      0xf57c0faf, 0x4787c62a, 0xa8304613, 0xfd469501,
      0x698098d8, 0x8b44f7af, 0xffff5bb1, 0x895cd7be,
      0x6b901122, 0xfd987193, 0xa679438e, 0x49b40821,
      0xf61e2562, 0xc040b340, 0x265e5a51, 0xe9b6c7aa,
      0xd62f105d, 0x02441453, 0xd8a1e681, 0xe7d3fbc8,
      0x21e1cde6, 0xc33707d6, 0xf4d50d87, 0x455a14ed,
      0xa9e3e905, 0xfcefa3f8, 0x676f02d9, 0x8d2a4c8a,
      0xfffa3942, 0x8771f681, 0x6d9d6122, 0xfde5380c,
      0xa4beea44, 0x4bdecfa9, 0xf6bb4b60, 0xbebfbc70,
      0x289b7ec6, 0xeaa127fa, 0xd4ef3085, 0x04881d05,
      0xd9d4d039, 0xe6db99e5, 0x1fa27cf8, 0xc4ac5665,
      0xf4292244, 0x432aff97, 0xab9423a7, 0xfc93a039,
      0x655b59c3, 0x8f0ccc92, 0xffeff47d, 0x85845dd1,
      0x6fa87e4f, 0xfe2ce6e0, 0xa3014314, 0x4e0811a1,
      0xf7537e82, 0xbd3af235, 0x2ad7d2bb, 0xeb86d391]"

type_synonym md5_state = "u32 \<times> u32 \<times> u32 \<times> u32"

definition md5_step :: "u32 list \<Rightarrow> md5_state \<Rightarrow> nat \<Rightarrow> md5_state" where
  "md5_step M st i =
     (case st of (A, B, C, D) \<Rightarrow>
        let (F, g) =
              (if i < 16 then ((B AND C) OR (NOT B AND D), i)
               else if i < 32 then ((D AND B) OR (NOT D AND C), (5 * i + 1) mod 16)
               else if i < 48 then (B XOR C XOR D, (3 * i + 5) mod 16)
               else (C XOR (B OR NOT D), (7 * i) mod 16));
            F' = F + A + md5_K ! i + M ! g
        in (D, B + word_rotl (md5_s ! i) F', B, C))"

definition md5_block :: "md5_state \<Rightarrow> nat list \<Rightarrow> md5_state" where
  "md5_block st chunk =
     (case st of (a0, b0, c0, d0) \<Rightarrow>
        case foldl (md5_step (map le_word (chunks 4 chunk))) st [0..<64] of
          (A, B, C, D) \<Rightarrow> (a0 + A, b0 + B, c0 + C, d0 + D))"

definition md5_init :: md5_state where
  "md5_init = (0x67452301, 0xefcdab89, 0x98badcfe, 0x10325476)"

definition md5_Sum :: "string \<Rightarrow> nat list" where
  "md5_Sum s =
     (case foldl md5_block md5_init (chunks 64 (md5_pad (map of_char s))) of
        (a, b, c, d) \<Rightarrow>
          le_bytes 4 (unat a) @ le_bytes 4 (unat b) @ le_bytes 4 (unat c) @ le_bytes 4 (unat d))"

text \<open>\<^verbatim>\<open>hex.EncodeToString\<close>: two lower-case hexadecimal digits for each byte.\<close>

definition hextable :: string where
  "hextable = ''0123456789abcdef''"

definition EncodeToString :: "nat list \<Rightarrow> string" where
  "EncodeToString bs = concat (map (\<lambda>b. [hextable ! (b div 16), hextable ! (b mod 16)]) bs)"

section \<open>The operating system and the external capabilities\<close>

text \<open>
  A Go \<^verbatim>\<open>error\<close> is either an error raised by the system or a capability, or an
  error wrapped by \<^verbatim>\<open>fmt.Errorf("...%w", err)\<close> under a message.
\<close>

datatype error = Errno string | Errorf string error

text \<open>
  The file system maps a path to what is there: a directory, a file with its bytes, or a
  sparse file of a logical size. Symbolic links are resolved by \<^verbatim>\<open>EvalSymlinks\<close> only.
\<close>

datatype node = Dir | File string | SparseFile nat

type_synonym fsys = "path \<Rightarrow> node option"

text \<open>The arguments \<^verbatim>\<open>newTarget\<close> receives, which the target value keeps.\<close>

record target_args =
  t_targetPath :: path
  t_kernelPath :: path
  t_initrdPath :: path
  t_rootfsPath :: path
  t_diskDataPath :: path
  t_versionsPath :: path

datatype syscall =
    MkdirAll path
  | RemoveAll path
  | Stat path
  | Open path
  | ReadAll path
  | GenerateSSHKey path string
  | FindUsablePort nat
  | CreateSparseFile path nat
  | NewTarget target_args
  | TargetHandle target_args

text \<open>
  What the process cannot decide is given by the environment: the working directory, the
  path of the executable and the resolution of symbolic links, which calls fail for a
  reason outside the file-system model (permissions, I/O errors), the key material the
  generator produces, the port the probe finds, and what the reconciliation engine does
  to the file system.
\<close>

record os_env =
  Getwd :: "error + path"
  Executable :: "error + path"
  EvalSymlinks :: "path \<Rightarrow> error + path"
  fault :: "syscall \<Rightarrow> error option"
  keypair :: "string \<times> string"
  usable_port :: "nat \<Rightarrow> error + int"
  reconcile :: "target_args \<Rightarrow> fsys \<Rightarrow> error + fsys"

text \<open>
  The world a run changes: the file system, and the calls that write to it or invoke a
  capability, in the order they were made.
\<close>

record world =
  fs :: fsys
  calls :: "syscall list"

definition log_call :: "syscall \<Rightarrow> world \<Rightarrow> world" where
  "log_call k w = w\<lparr>calls := calls w @ [k]\<rparr>"

definition path_elems :: "path \<Rightarrow> string list" where
  "path_elems p = filter (\<lambda>e. e \<noteq> []) (split_slash p)"

text \<open>\<open>at_or_below p q\<close>: the path \<open>q\<close> is \<open>p\<close> itself or lies inside \<open>p\<close>.\<close>

definition at_or_below :: "path \<Rightarrow> path \<Rightarrow> bool" where
  "at_or_below p q = prefix (path_elems p) (path_elems q)"

text \<open>The directories above a path, the root excluded, and the path itself.\<close>

definition ancestors :: "path \<Rightarrow> path list" where
  "ancestors p = p # map (\<lambda>es. slash # join_slash es) (butlast (tl (prefixes (path_elems p))))"

definition is_dir :: "fsys \<Rightarrow> path \<Rightarrow> bool" where
  "is_dir f p = (f p = Some Dir)"

definition not_a_dir :: "fsys \<Rightarrow> path \<Rightarrow> bool" where
  "not_a_dir f p = (case f p of None \<Rightarrow> False | Some Dir \<Rightarrow> False | Some _ \<Rightarrow> True)"

text \<open>
  \<^verbatim>\<open>os.MkdirAll\<close>: creates the directory and the missing directories above it; fails
  on the empty path, when one of them exists and is not a directory, or for an outside
  reason.
\<close>

definition os_MkdirAll :: "os_env \<Rightarrow> path \<Rightarrow> world \<Rightarrow> error option \<times> world" where
  "os_MkdirAll env p w =
     (let w1 = log_call (MkdirAll p) w in
      if p = [] then (Some (Errno ''ENOENT''), w1)
      else case fault env (MkdirAll p) of
        Some e \<Rightarrow> (Some e, w1)
      | None \<Rightarrow>
          if list_ex (not_a_dir (fs w)) (ancestors p) then (Some (Errno ''ENOTDIR''), w1)
          else (None, w1\<lparr>fs := (\<lambda>q. if q \<in> set (ancestors p) then Some Dir else fs w q)\<rparr>))"

text \<open>
  \<^verbatim>\<open>os.RemoveAll\<close>: removes the path and everything inside it; a missing path is no
  error, the empty path does nothing, a path ending in a dot element is refused.
\<close>

definition ends_in_dot :: "path \<Rightarrow> bool" where
  "ends_in_dot p = (p = ''.'' \<or> suffix ''/.'' p)"

definition os_RemoveAll :: "os_env \<Rightarrow> path \<Rightarrow> world \<Rightarrow> error option \<times> world" where
  "os_RemoveAll env p w =
     (let w1 = log_call (RemoveAll p) w in
      if p = [] then (None, w1)
      else if ends_in_dot p then (Some (Errno ''EINVAL''), w1)
      else case fault env (RemoveAll p) of
        Some e \<Rightarrow> (Some e, w1)
      | None \<Rightarrow> (None, w1\<lparr>fs := (\<lambda>q. if at_or_below p q then None else fs w q)\<rparr>))"

definition os_Stat :: "os_env \<Rightarrow> path \<Rightarrow> world \<Rightarrow> error + node" where
  "os_Stat env p w =
     (case fault env (Stat p) of
        Some e \<Rightarrow> Inl e
      | None \<Rightarrow> (case fs w p of None \<Rightarrow> Inl (Errno ''ENOENT'') | Some n \<Rightarrow> Inr n))"

text \<open>
  \<^verbatim>\<open>os.Open\<close> gives the opened node; \<^verbatim>\<open>io.ReadAll\<close> reads its bytes: those of a file,
  zeros for a sparse file, and an error for a directory.
\<close>

definition os_Open :: "os_env \<Rightarrow> path \<Rightarrow> world \<Rightarrow> error + node" where
  "os_Open env p w =
     (case fault env (Open p) of
        Some e \<Rightarrow> Inl e
      | None \<Rightarrow> (case fs w p of None \<Rightarrow> Inl (Errno ''ENOENT'') | Some n \<Rightarrow> Inr n))"

fun file_bytes :: "node \<Rightarrow> string option" where
  "file_bytes Dir = None"
| "file_bytes (File b) = Some b"
| "file_bytes (SparseFile k) = Some (replicate k (char_of (0::nat)))"

definition io_ReadAll :: "os_env \<Rightarrow> path \<Rightarrow> node \<Rightarrow> error + string" where
  "io_ReadAll env p n =
     (case fault env (ReadAll p) of
        Some e \<Rightarrow> Inl e
      | None \<Rightarrow>
         (case file_bytes n of
            None \<Rightarrow> Inl (Errno ''EISDIR'')
          | Some b \<Rightarrow> Inr b))"

text \<open>
  \<^verbatim>\<open>filepath.Abs\<close>: an absolute path is cleaned, a relative one is joined to the
  working directory.
\<close>

definition filepath_Abs :: "os_env \<Rightarrow> path \<Rightarrow> error + path" where
  "filepath_Abs env p =
     (if IsAbs p then Inr (Clean p)
      else case Getwd env of
        Inl e \<Rightarrow> Inl e
      | Inr wd \<Rightarrow> Inr (Join wd p))"

text \<open>
  Modelled from the spec: \<^verbatim>\<open>utils.GenerateSSHKey\<close> is not in the source file. The spec
  gives it as \<^verbatim>\<open>GenerateKeypair(directory, baseName) -> error\<close>, which "writes a
  private/public key pair at deterministic sibling paths": the private key at the base
  name under the directory, the public key beside it with the suffix \<^verbatim>\<open>.pub\<close>.
\<close>

definition utils_GenerateSSHKey :: "os_env \<Rightarrow> path \<Rightarrow> string \<Rightarrow> world \<Rightarrow> error option \<times> world" where
  "utils_GenerateSSHKey env dir nm w =
     (let w1 = log_call (GenerateSSHKey dir nm) w in
      case fault env (GenerateSSHKey dir nm) of
        Some e \<Rightarrow> (Some e, w1)
      | None \<Rightarrow>
          (None, w1\<lparr>fs := (fs w)(Join dir nm \<mapsto> File (fst (keypair env)),
                                  Join dir (nm @ ''.pub'') \<mapsto> File (snd (keypair env)))\<rparr>))"

text \<open>
  Modelled from the spec: \<^verbatim>\<open>utils.FindUsablePort\<close> is not in the source file. The spec
  gives it as \<^verbatim>\<open>FindUsablePort(preferred) -> (port, error)\<close>, delegating to a bind
  probe; the probe's answer is the environment's.
\<close>

definition utils_FindUsablePort :: "os_env \<Rightarrow> nat \<Rightarrow> world \<Rightarrow> (error + int) \<times> world" where
  "utils_FindUsablePort env preferred w =
     (usable_port env preferred, log_call (FindUsablePort preferred) w)"

text \<open>
  Modelled from the spec: \<^verbatim>\<open>utils.CreateSparseFile\<close> is not in the source file. The spec
  gives it as \<^verbatim>\<open>CreateSparseFile(path, sizeBytes) -> error\<close>, a "sparse allocation of
  exactly \<^verbatim>\<open>sizeBytes\<close>". A directory at the path is not replaced.
\<close>

definition utils_CreateSparseFile :: "os_env \<Rightarrow> path \<Rightarrow> nat \<Rightarrow> world \<Rightarrow> error option \<times> world" where
  "utils_CreateSparseFile env p sizeBytes w =
     (let w1 = log_call (CreateSparseFile p sizeBytes) w in
      case fault env (CreateSparseFile p sizeBytes) of
        Some e \<Rightarrow> (Some e, w1)
      | None \<Rightarrow>
          if is_dir (fs w) p then (Some (Errno ''EISDIR''), w1)
          else (None, w1\<lparr>fs := (fs w)(p \<mapsto> SparseFile sizeBytes)\<rparr>))"

text \<open>
  Modelled from the spec: \<^verbatim>\<open>newTarget\<close> and the target's \<^verbatim>\<open>handle\<close> are not in the
  source file. The spec gives them as the external reconciliation engine
  \<^verbatim>\<open>ReconcileTarget(targetDir, kernelSrc, initrdSrc, rootfsSrc, dataDiskPath,
  manifestPath) -> error\<close>, whose algorithm is out of scope: the constructor keeps its
  arguments or fails, and what \<^verbatim>\<open>handle\<close> does to the file system is the environment's.
\<close>

definition newTarget ::
  "os_env \<Rightarrow> path \<Rightarrow> path \<Rightarrow> path \<Rightarrow> path \<Rightarrow> path \<Rightarrow> path \<Rightarrow> world \<Rightarrow> (error + target_args) \<times> world" where
  "newTarget env tp kp ip rp dp vp w =
     (let t = \<lparr>t_targetPath = tp, t_kernelPath = kp, t_initrdPath = ip,
               t_rootfsPath = rp, t_diskDataPath = dp, t_versionsPath = vp\<rparr>
      in (case fault env (NewTarget t) of Some e \<Rightarrow> Inl e | None \<Rightarrow> Inr t,
          log_call (NewTarget t) w))"

definition target_handle :: "os_env \<Rightarrow> target_args \<Rightarrow> world \<Rightarrow> error option \<times> world" where
  "target_handle env t w =
     (let w1 = log_call (TargetHandle t) w in
      case reconcile env t (fs w) of
        Inl e \<Rightarrow> (Some e, w1)
      | Inr f \<Rightarrow> (None, w1\<lparr>fs := f\<rparr>))"

section \<open>The Context and its initialisation (\<^verbatim>\<open>pkg/cli/setup.go\<close>)\<close>

text \<open>
  The package-level variables the command line fills in. They are declared outside the
  source file; \<^verbatim>\<open>memory\<close> is assigned to a \<^verbatim>\<open>uint64\<close> field after a multiplication
  by constants, \<^verbatim>\<open>cpus\<close> to a \<^verbatim>\<open>uint\<close> field and \<^verbatim>\<open>bindPID\<close> to an \<^verbatim>\<open>int\<close> field,
  which fixes their types.
\<close>

record flags =
  flag_name :: string
  flag_cpus :: "64 word"
  flag_memory :: "64 word"
  flag_cliMode :: bool
  flag_bindPID :: int
  flag_eventSocketPath :: string
  flag_powerSaveMode :: bool
  flag_kernelDebug :: bool
  flag_socketPath :: string
  flag_sshKeyPath :: string
  flag_logPath :: string
  flag_targetPath :: string
  flag_kernelPath :: string
  flag_initrdPath :: string
  flag_rootfsPath :: string

record Context =
  Name :: string
  VersionsPath :: string
  LogPath :: string
  SocketPath :: string
  IsCliMode :: bool
  LockFile :: string
  ExecutablePath :: string
  BindPID :: int
  EventSocketPath :: string
  PowerSaveMode :: bool
  KernelDebug :: bool
  Endpoint :: string
  SSHPort :: int
  SSHKeyPath :: string
  SSHPrivateKeyPath :: string
  SSHPublicKeyPath :: string
  SSHPublicKey :: string
  ForwardSocketPath :: string
  SocketNetworkPath :: string
  SocketInitrdVSockPath :: string
  SocketReadyPath :: string
  RestfulSocketPath :: string
  TimeSyncSocketPath :: string
  SSHAuthSocketPath :: string
  CPUS :: "64 word"
  MemoryBytes :: "64 word"
  KernelPath :: string
  InitrdPath :: string
  RootfsPath :: string
  TargetPath :: string
  DiskDataPath :: string
  DiskTmpPath :: string

text \<open>\<^verbatim>\<open>Init\<close>: every field has the zero value of its type.\<close>

definition Init :: Context where
  "Init = \<lparr>Name = [], VersionsPath = [], LogPath = [], SocketPath = [], IsCliMode = False,
     LockFile = [], ExecutablePath = [], BindPID = 0, EventSocketPath = [],
     PowerSaveMode = False, KernelDebug = False, Endpoint = [], SSHPort = 0,
     SSHKeyPath = [], SSHPrivateKeyPath = [], SSHPublicKeyPath = [], SSHPublicKey = [],
     ForwardSocketPath = [], SocketNetworkPath = [], SocketInitrdVSockPath = [],
     SocketReadyPath = [], RestfulSocketPath = [], TimeSyncSocketPath = [],
     SSHAuthSocketPath = [], CPUS = 0, MemoryBytes = 0, KernelPath = [], InitrdPath = [],
     RootfsPath = [], TargetPath = [], DiskDataPath = [], DiskTmpPath = []\<rparr>"

text \<open>
  A method of the Context takes the Context and the world and gives the error it returns
  (\<open>None\<close> is \<^verbatim>\<open>nil\<close>) with the Context and the world as it leaves them: fields written
  before a failure stay written.
\<close>

type_synonym state = "Context \<times> world"
type_synonym outcome = "error option \<times> Context \<times> world"

subsection \<open>\<^verbatim>\<open>basic\<close>\<close>

definition basic_flags :: "flags \<Rightarrow> Context \<Rightarrow> Context" where
  "basic_flags fl c =
     c\<lparr>Name := flag_name fl,
       CPUS := flag_cpus fl,
       MemoryBytes := flag_memory fl * 1024 * 1024,
       IsCliMode := flag_cliMode fl,
       BindPID := flag_bindPID fl,
       EventSocketPath := flag_eventSocketPath fl,
       PowerSaveMode := flag_powerSaveMode fl,
       KernelDebug := flag_kernelDebug fl\<rparr>"

definition lock_file :: "string \<Rightarrow> string \<Rightarrow> string" where
  "lock_file exe nm =
     (let sum = md5_Sum exe; hash = EncodeToString sum
      in ''/tmp/ovm/'' @ hash @ ''-'' @ nm @ ''.pid'')"

definition basic :: "flags \<Rightarrow> os_env \<Rightarrow> Context \<Rightarrow> world \<Rightarrow> outcome" where
  "basic fl env c0 w0 =
     (let c1 = basic_flags fl c0 in
      case os_MkdirAll env ''/tmp/ovm'' w0 of
        (Some err, w1) \<Rightarrow> (Some err, c1, w1)
      | (None, w1) \<Rightarrow>
         (case Executable env of
            Inl err \<Rightarrow> (Some (Errorf ''get executable path error: '' err), c1, w1)
          | Inr p \<Rightarrow>
             (case EvalSymlinks env p of
                Inl err \<Rightarrow> (Some (Errorf ''eval symlink error: '' err), c1, w1)
              | Inr p' \<Rightarrow>
                  let c2 = c1\<lparr>ExecutablePath := ToLower p'\<rparr>;
                      c3 = c2\<lparr>LockFile := lock_file (ExecutablePath c2) (flag_name fl)\<rparr>
                  in (None, c3, w1))))"

subsection \<open>\<^verbatim>\<open>socketPath\<close>\<close>

definition socket_fields :: "flags \<Rightarrow> path \<Rightarrow> Context \<Rightarrow> Context" where
  "socket_fields fl p c =
     (let c1 = c\<lparr>SocketPath := p,
                 ForwardSocketPath := Join p (flag_name fl @ ''-podman.sock''),
                 SocketNetworkPath := Join p (flag_name fl @ ''-vfkit-network.sock''),
                 SocketInitrdVSockPath := Join p (flag_name fl @ ''-initrd-vsock.sock''),
                 SocketReadyPath := Join p (flag_name fl @ ''-ready.sock''),
                 RestfulSocketPath := Join p (flag_name fl @ ''-restful.sock''),
                 TimeSyncSocketPath := Join p (flag_name fl @ ''-sync-time.sock''),
                 SSHAuthSocketPath := Join p (flag_name fl @ ''-ssh-auth.sock'')\<rparr>
      in c1\<lparr>Endpoint := ''unix://'' @ SocketNetworkPath c1\<rparr>)"

definition socketPath :: "flags \<Rightarrow> os_env \<Rightarrow> Context \<Rightarrow> world \<Rightarrow> outcome" where
  "socketPath fl env c0 w0 =
     (case filepath_Abs env (flag_socketPath fl) of
        Inl err \<Rightarrow> (Some err, c0, w0)
      | Inr p \<Rightarrow>
          let c1 = socket_fields fl p c0 in
          case os_RemoveAll env (SocketPath c1) w0 of
            (Some err, w1) \<Rightarrow> (Some err, c1, w1)
          | (None, w1) \<Rightarrow>
             (case os_MkdirAll env (SocketPath c1) w1 of
                (Some err, w2) \<Rightarrow> (Some err, c1, w2)
              | (None, w2) \<Rightarrow> (None, c1, w2)))"

subsection \<open>\<^verbatim>\<open>ssh\<close>\<close>

text \<open>
  The first block of \<^verbatim>\<open>ssh\<close>: both key files are probed by \<^verbatim>\<open>os.Stat\<close> in a nested
  group, whose \<^verbatim>\<open>Wait\<close> is not \<^verbatim>\<open>nil\<close> exactly when one of the probes fails. The probes
  only read, so their order does not matter. The results of the two \<^verbatim>\<open>RemoveAll\<close> are
  discarded.
\<close>

definition ssh_stat_failed :: "os_env \<Rightarrow> Context \<Rightarrow> world \<Rightarrow> bool" where
  "ssh_stat_failed env c w =
     (isl (os_Stat env (SSHPrivateKeyPath c) w) \<or> isl (os_Stat env (SSHPublicKeyPath c) w))"

definition ssh_keys :: "flags \<Rightarrow> os_env \<Rightarrow> Context \<Rightarrow> world \<Rightarrow> error option \<times> world" where
  "ssh_keys fl env c w0 =
     (if ssh_stat_failed env c w0 then
        let w1 = snd (os_RemoveAll env (SSHPrivateKeyPath c) w0);
            w2 = snd (os_RemoveAll env (SSHPublicKeyPath c) w1)
        in utils_GenerateSSHKey env (SSHKeyPath c) (flag_name fl) w2
      else (None, w0))"

text \<open>The second block: the public key file is opened and read.\<close>

definition ssh_read :: "os_env \<Rightarrow> Context \<Rightarrow> world \<Rightarrow> error + string" where
  "ssh_read env c w =
     (case os_Open env (SSHPublicKeyPath c) w of
        Inl err \<Rightarrow> Inl err
      | Inr f \<Rightarrow> io_ReadAll env (SSHPublicKeyPath c) f)"

definition ssh :: "flags \<Rightarrow> os_env \<Rightarrow> Context \<Rightarrow> world \<Rightarrow> outcome" where
  "ssh fl env c0 w0 =
     (case filepath_Abs env (flag_sshKeyPath fl) of
        Inl err \<Rightarrow> (Some err, c0, w0)
      | Inr p \<Rightarrow>
          let c1 = c0\<lparr>SSHKeyPath := p,
                      SSHPrivateKeyPath := Join p (flag_name fl),
                      SSHPublicKeyPath := Join p (flag_name fl @ ''.pub'')\<rparr> in
          case os_MkdirAll env p w0 of
            (Some err, w1) \<Rightarrow> (Some err, c1, w1)
          | (None, w1) \<Rightarrow>
             (case ssh_keys fl env c1 w1 of
                (Some err, w2) \<Rightarrow> (Some err, c1, w2)
              | (None, w2) \<Rightarrow>
                 (case ssh_read env c1 w2 of
                    Inl err \<Rightarrow> (Some err, c1, w2)
                  | Inr b \<Rightarrow> (None, c1\<lparr>SSHPublicKey := TrimSpace b\<rparr>, w2))))"

subsection \<open>\<^verbatim>\<open>sshPort\<close> and \<^verbatim>\<open>logPath\<close>\<close>

definition sshPort :: "flags \<Rightarrow> os_env \<Rightarrow> Context \<Rightarrow> world \<Rightarrow> outcome" where
  "sshPort fl env c0 w0 =
     (case utils_FindUsablePort env 2233 w0 of
        (Inl err, w1) \<Rightarrow> (Some err, c0, w1)
      | (Inr port, w1) \<Rightarrow> (None, c0\<lparr>SSHPort := port\<rparr>, w1))"

definition logPath :: "flags \<Rightarrow> os_env \<Rightarrow> Context \<Rightarrow> world \<Rightarrow> outcome" where
  "logPath fl env c0 w0 =
     (case filepath_Abs env (flag_logPath fl) of
        Inl err \<Rightarrow> (Some err, c0, w0)
      | Inr p \<Rightarrow>
          let c1 = c0\<lparr>LogPath := p\<rparr> in
          case os_MkdirAll env (LogPath c1) w0 of (r, w1) \<Rightarrow> (r, c1, w1))"

subsection \<open>\<^verbatim>\<open>target\<close>\<close>

definition target_fields :: "flags \<Rightarrow> Context \<Rightarrow> Context" where
  "target_fields fl c =
     c\<lparr>VersionsPath := Join (TargetPath c) ''versions.json'',
       KernelPath := Join (TargetPath c) (Base (flag_kernelPath fl)),
       InitrdPath := Join (TargetPath c) (Base (flag_initrdPath fl)),
       RootfsPath := Join (TargetPath c) (Base (flag_rootfsPath fl)),
       DiskDataPath := Join (TargetPath c) ''data.img'',
       DiskTmpPath := Join (TargetPath c) ''tmp.img''\<rparr>"

text \<open>The last step of \<^verbatim>\<open>target\<close>: the scratch disk of 1 TiB.\<close>

definition tmp_disk_size :: nat where
  "tmp_disk_size = 1 * 1024 * 1024 * 1024 * 1024"

definition target_tmp_disk :: "os_env \<Rightarrow> Context \<Rightarrow> world \<Rightarrow> error option \<times> world" where
  "target_tmp_disk env c w =
     (case os_Stat env (DiskTmpPath c) w of
        Inl _ \<Rightarrow> utils_CreateSparseFile env (DiskTmpPath c) tmp_disk_size w
      | Inr _ \<Rightarrow> (None, w))"

definition target :: "flags \<Rightarrow> os_env \<Rightarrow> Context \<Rightarrow> world \<Rightarrow> outcome" where
  "target fl env c0 w0 =
     (case filepath_Abs env (flag_targetPath fl) of
        Inl err \<Rightarrow> (Some err, c0, w0)
      | Inr p \<Rightarrow>
          let c1 = c0\<lparr>TargetPath := p\<rparr> in
          case os_MkdirAll env (TargetPath c1) w0 of
            (Some err, w1) \<Rightarrow> (Some err, c1, w1)
          | (None, w1) \<Rightarrow>
              let c2 = target_fields fl c1 in
              case newTarget env (TargetPath c2) (flag_kernelPath fl) (flag_initrdPath fl)
                     (flag_rootfsPath fl) (DiskDataPath c2) (VersionsPath c2) w1 of
                (Inl err, w2) \<Rightarrow> (Some err, c2, w2)
              | (Inr t, w2) \<Rightarrow>
                 (case target_handle env t w2 of
                    (Some err, w3) \<Rightarrow> (Some err, c2, w3)
                  | (None, w3) \<Rightarrow>
                     (case target_tmp_disk env c2 w3 of (r, w4) \<Rightarrow> (r, c2, w4))))"

subsection \<open>The error group, \<^verbatim>\<open>PreSetup\<close> and \<^verbatim>\<open>Setup\<close>\<close>

text \<open>
  \<^verbatim>\<open>errgroup.Group{}\<close> starts every function given to \<^verbatim>\<open>Go\<close> in a goroutine of its
  own; there is no limit and no cancellation, so each one runs to its end. \<^verbatim>\<open>Wait\<close>
  returns the first error that was recorded, or \<^verbatim>\<open>nil\<close>. The goroutines are taken as
  atomic steps that run one after the other in the order a schedule decides; the results
  are kept in that order.
\<close>

fun group_run :: "('s \<Rightarrow> error option \<times> 's) list \<Rightarrow> 's \<Rightarrow> error option list \<times> 's" where
  "group_run [] s = ([], s)"
| "group_run (t # ts) s =
     (case t s of (r, s1) \<Rightarrow>
        case group_run ts s1 of (rs, s2) \<Rightarrow> (r # rs, s2))"

fun first_error :: "error option list \<Rightarrow> error option" where
  "first_error [] = None"
| "first_error (None # rs) = first_error rs"
| "first_error (Some e # rs) = Some e"

definition group_Wait :: "('s \<Rightarrow> error option \<times> 's) list \<Rightarrow> 's \<Rightarrow> error option \<times> 's" where
  "group_Wait ts s = (case group_run ts s of (rs, s') \<Rightarrow> (first_error rs, s'))"

datatype goroutine = G_basic | G_logPath | G_socketPath | G_ssh | G_sshPort | G_target

text \<open>
  A schedule is any list of goroutines. The goroutines that were started run in the order
  the schedule names them; those it does not name run afterwards, in the order they were
  started. Every order of the started goroutines is the schedule of some list.
\<close>

definition scheduled :: "goroutine list \<Rightarrow> goroutine list \<Rightarrow> goroutine list" where
  "scheduled started sched =
     remdups (filter (\<lambda>g. g \<in> set started) sched) @ filter (\<lambda>g. g \<notin> set sched) started"

definition run_goroutine :: "flags \<Rightarrow> os_env \<Rightarrow> goroutine \<Rightarrow> state \<Rightarrow> error option \<times> state" where
  "run_goroutine fl env g s =
     (case s of (c, w) \<Rightarrow>
        (case g of
           G_basic \<Rightarrow> basic fl env c w
         | G_logPath \<Rightarrow> logPath fl env c w
         | G_socketPath \<Rightarrow> socketPath fl env c w
         | G_ssh \<Rightarrow> ssh fl env c w
         | G_sshPort \<Rightarrow> sshPort fl env c w
         | G_target \<Rightarrow> target fl env c w))"

definition PreSetup_started :: "goroutine list" where
  "PreSetup_started = [G_basic, G_logPath]"

definition Setup_started :: "goroutine list" where
  "Setup_started = [G_socketPath, G_ssh, G_sshPort, G_target]"

definition PreSetup :: "flags \<Rightarrow> os_env \<Rightarrow> goroutine list \<Rightarrow> Context \<Rightarrow> world \<Rightarrow> outcome" where
  "PreSetup fl env sched c w =
     group_Wait (map (run_goroutine fl env) (scheduled PreSetup_started sched)) (c, w)"

definition Setup :: "flags \<Rightarrow> os_env \<Rightarrow> goroutine list \<Rightarrow> Context \<Rightarrow> world \<Rightarrow> outcome" where
  "Setup fl env sched c w =
     group_Wait (map (run_goroutine fl env) (scheduled Setup_started sched)) (c, w)"

section \<open>Host conditions and the paths each step derives\<close>

text \<open>
  What Go documents of the host: \<^verbatim>\<open>os.Getwd\<close> and \<^verbatim>\<open>os.Executable\<close> return absolute
  paths, and \<^verbatim>\<open>filepath.EvalSymlinks\<close> of an absolute path is absolute.
\<close>

definition abs_paths_env :: "os_env \<Rightarrow> bool" where
  "abs_paths_env env =
     ((case Getwd env of Inl _ \<Rightarrow> True | Inr wd \<Rightarrow> IsAbs wd) \<and>
      (case Executable env of
         Inl _ \<Rightarrow> True
       | Inr p \<Rightarrow> IsAbs p \<and> (case EvalSymlinks env p of Inl _ \<Rightarrow> True | Inr q \<Rightarrow> IsAbs q)))"

text \<open>
  \<open>reconcile_keeps env d\<close>: the reconciliation engine leaves the directory \<open>d\<close> in place.
\<close>

definition reconcile_keeps :: "os_env \<Rightarrow> path \<Rightarrow> bool" where
  "reconcile_keeps env d = (\<forall>t f f'. reconcile env t f = Inr f' \<and> is_dir f d \<longrightarrow> is_dir f' d)"

text \<open>
  \<open>Setup_keeps env c d\<close>: no step of \<^verbatim>\<open>Setup\<close> removes or replaces the directory \<open>d\<close>. It
  does not lie inside the socket directory, which is emptied; it is neither a key file
  path nor inside one, which are removed and written; the reconciliation engine leaves
  it in place.
\<close>

definition Setup_keeps :: "os_env \<Rightarrow> Context \<Rightarrow> path \<Rightarrow> bool" where
  "Setup_keeps env c d =
     ((d = SocketPath c \<or> \<not> at_or_below (SocketPath c) d) \<and>
      \<not> at_or_below (SSHPrivateKeyPath c) d \<and>
      \<not> at_or_below (SSHPublicKeyPath c) d \<and>
      reconcile_keeps env d)"

text \<open>
  The path fields each step writes, and the values it gives them: they depend on the
  flags and the host only, not on the Context or the file system the step finds.
\<close>

fun path_fields :: "goroutine \<Rightarrow> Context \<Rightarrow> string list" where
  "path_fields G_basic c = [ExecutablePath c, LockFile c]"
| "path_fields G_logPath c = [LogPath c]"
| "path_fields G_socketPath c =
     [SocketPath c, ForwardSocketPath c, SocketNetworkPath c, SocketInitrdVSockPath c,
      SocketReadyPath c, RestfulSocketPath c, TimeSyncSocketPath c, SSHAuthSocketPath c]"
| "path_fields G_ssh c = [SSHKeyPath c, SSHPrivateKeyPath c, SSHPublicKeyPath c]"
| "path_fields G_sshPort c = []"
| "path_fields G_target c =
     [TargetPath c, VersionsPath c, KernelPath c, InitrdPath c, RootfsPath c, DiskDataPath c,
      DiskTmpPath c]"

fun derived_paths :: "flags \<Rightarrow> os_env \<Rightarrow> goroutine \<Rightarrow> string list" where
  "derived_paths fl env G_basic =
     (case Executable env of
        Inl _ \<Rightarrow> []
      | Inr p \<Rightarrow>
         (case EvalSymlinks env p of
            Inl _ \<Rightarrow> []
          | Inr q \<Rightarrow> [ToLower q, lock_file (ToLower q) (flag_name fl)]))"
| "derived_paths fl env G_logPath =
     (case filepath_Abs env (flag_logPath fl) of Inl _ \<Rightarrow> [] | Inr p \<Rightarrow> [p])"
| "derived_paths fl env G_socketPath =
     (case filepath_Abs env (flag_socketPath fl) of
        Inl _ \<Rightarrow> []
      | Inr p \<Rightarrow>
         [p, Join p (flag_name fl @ ''-podman.sock''),
          Join p (flag_name fl @ ''-vfkit-network.sock''),
          Join p (flag_name fl @ ''-initrd-vsock.sock''),
          Join p (flag_name fl @ ''-ready.sock''),
          Join p (flag_name fl @ ''-restful.sock''),
          Join p (flag_name fl @ ''-sync-time.sock''),
          Join p (flag_name fl @ ''-ssh-auth.sock'')])"
| "derived_paths fl env G_ssh =
     (case filepath_Abs env (flag_sshKeyPath fl) of
        Inl _ \<Rightarrow> []
      | Inr p \<Rightarrow> [p, Join p (flag_name fl), Join p (flag_name fl @ ''.pub'')])"
| "derived_paths fl env G_sshPort = []"
| "derived_paths fl env G_target =
     (case filepath_Abs env (flag_targetPath fl) of
        Inl _ \<Rightarrow> []
      | Inr p \<Rightarrow>
         [p, Join p ''versions.json'', Join p (Base (flag_kernelPath fl)),
          Join p (Base (flag_initrdPath fl)), Join p (Base (flag_rootfsPath fl)),
          Join p ''data.img'', Join p ''tmp.img''])"

section \<open>Example runs\<close>

text \<open>
  A host on which nothing fails: the executable is \<^verbatim>\<open>/usr/local/bin/OVM\<close>, the working
  directory \<^verbatim>\<open>/home/u\<close>, no symbolic links, the reconciliation engine leaves the file
  system as it is.
\<close>

definition ex_env :: os_env where
  "ex_env = \<lparr>Getwd = Inr ''/home/u'', Executable = Inr ''/usr/local/bin/OVM'',
     EvalSymlinks = (\<lambda>p. Inr p), fault = (\<lambda>_. None),
     keypair = (''PRIVATE KEY'', ''ssh-ed25519 AAAA ovm'' @ [CHR 0x0A]),
     usable_port = (\<lambda>n. Inr (int n)), reconcile = (\<lambda>t f. Inr f)\<rparr>"

definition ex_flags :: flags where
  "ex_flags = \<lparr>flag_name = ''ovm'', flag_cpus = 2, flag_memory = 4096, flag_cliMode = False,
     flag_bindPID = 0, flag_eventSocketPath = ''/run/event.sock'', flag_powerSaveMode = False,
     flag_kernelDebug = False, flag_socketPath = ''/run/ovm'', flag_sshKeyPath = ''ssh'',
     flag_logPath = ''/var/log/ovm'', flag_targetPath = ''/t'',
     flag_kernelPath = ''/src/vmlinuz'', flag_initrdPath = ''/src/initrd.gz'',
     flag_rootfsPath = ''/src/rootfs.erofs''\<rparr>"

definition ex_world :: world where
  "ex_world = \<lparr>fs = Map.empty, calls = []\<rparr>"

text \<open>The same host, where the socket directory cannot be removed and \<^verbatim>\<open>/tmp/ovm\<close> cannot be created.\<close>

definition ex_env_denied :: os_env where
  "ex_env_denied = ex_env\<lparr>fault := (\<lambda>k. if k = RemoveAll ''/run/ovm'' \<or> k = MkdirAll ''/tmp/ovm''
       then Some (Errno ''EACCES'') else None)\<rparr>"




text \<open>The host of the examples, where one given call fails with an I/O error.\<close>

definition ex_env_fault :: "syscall \<Rightarrow> os_env" where
  "ex_env_fault k = ex_env\<lparr>fault := (\<lambda>k'. if k' = k then Some (Errno ''EIO'') else None)\<rparr>"

text \<open>A world where the scratch disk is there already, and one with the target directory only.\<close>

definition ex_world_tmp :: world where
  "ex_world_tmp = \<lparr>fs = [''/t'' \<mapsto> Dir, ''/t/tmp.img'' \<mapsto> File ''scratch data''], calls = []\<rparr>"

definition ex_world_t :: world where
  "ex_world_t = \<lparr>fs = [''/t'' \<mapsto> Dir], calls = []\<rparr>"

definition ex_target_args :: target_args where
  "ex_target_args = \<lparr>t_targetPath = ''/t'', t_kernelPath = ''/src/vmlinuz'',
     t_initrdPath = ''/src/initrd.gz'', t_rootfsPath = ''/src/rootfs.erofs'',
     t_diskDataPath = ''/t/data.img'', t_versionsPath = ''/t/versions.json''\<rparr>"

text \<open>A world where \<^verbatim>\<open>/var/log\<close> is a file, so that the log directory cannot be made.\<close>

definition ex_world_logfile :: world where
  "ex_world_logfile = \<lparr>fs = [''/var'' \<mapsto> Dir, ''/var/log'' \<mapsto> File ''x''], calls = []\<rparr>"


text \<open>
  A host that has run before: every directory is there, the key pair and the scratch disk
  are there, and the socket directory holds a stale socket and an old log directory.
\<close>

definition ex_world_full :: world where
  "ex_world_full =
     \<lparr>fs = map_of
        [(''/tmp'', Dir), (''/tmp/ovm'', Dir),
         (''/var'', Dir), (''/var/log'', Dir), (''/var/log/ovm'', Dir),
         (''/run'', Dir), (''/run/ovm'', Dir), (''/run/ovm/log'', Dir),
         (''/run/ovm/ovm-podman.sock'', File []),
         (''/home'', Dir), (''/home/u'', Dir), (''/home/u/ssh'', Dir),
         (''/home/u/ssh/ovm'', File ''PRIVATE KEY''),
         (''/home/u/ssh/ovm.pub'', File (''ssh-ed25519 AAAA ovm'' @ [CHR 0x0A])),
         (''/t'', Dir), (''/t/tmp.img'', SparseFile (2 ^ 40))],
      calls = []\<rparr>"

text \<open>Flags that put the log directory inside the socket directory and name a relative event socket.\<close>

definition ex_flags_nested :: flags where
  "ex_flags_nested = ex_flags\<lparr>flag_eventSocketPath := ''event.sock'', flag_logPath := ''/run/ovm/log''\<rparr>"

text \<open>A schedule of \<^verbatim>\<open>Setup\<close> in which \<^verbatim>\<open>socketPath\<close> is the last to run.\<close>

definition ex_sched :: "goroutine list" where
  "ex_sched = [G_ssh, G_sshPort, G_target]"

definition ex_pre :: "flags \<Rightarrow> outcome" where
  "ex_pre fl = PreSetup fl ex_env [] Init ex_world_full"

definition ex_post :: "flags \<Rightarrow> outcome" where
  "ex_post fl = Setup fl ex_env ex_sched (fst (snd (ex_pre fl))) (snd (snd (ex_pre fl)))"

section \<open>Properties\<close>

subsection \<open>What \<^verbatim>\<open>basic\<close> writes\<close>

lemma basic_ctx_cases:
  "fst (snd (basic fl env c w)) = basic_flags fl c \<or>
   (\<exists>p p'. Executable env = Inr p \<and> EvalSymlinks env p = Inr p' \<and>
      fst (basic fl env c w) = None \<and>
      fst (snd (basic fl env c w)) =
        (basic_flags fl c)\<lparr>ExecutablePath := ToLower p',
                            LockFile := lock_file (ToLower p') (flag_name fl)\<rparr>)"
  by (auto simp: basic_def Let_def split: prod.splits option.splits sum.splits)

lemma basic_MemoryBytes_word:
  "MemoryBytes (fst (snd (basic fl env c w))) = flag_memory fl * 1024 * 1024"
  using basic_ctx_cases [of fl env c w] by (auto simp: basic_flags_def)

lemma unat_mul_2_20: "unat ((m :: 64 word) * 1024 * 1024) = (unat m * 2 ^ 20) mod 2 ^ 64"
proof -
  have "(m * 1024 * 1024) = m * 1048576" by simp
  then show ?thesis by (simp add: unat_word_ariths mult.commute)
qed

text \<open>
  C10. \<^verbatim>\<open>basic\<close> sets \<^verbatim>\<open>MemoryBytes\<close> to the memory flag times \<open>1024 * 1024\<close> in 64-bit
  unsigned arithmetic, whatever \<^verbatim>\<open>basic\<close> returns: the value is the product modulo
  \<open>2 ^ 64\<close>, and it is the exact product for every memory value below \<open>2 ^ 44\<close>.
\<close>

theorem basic_MemoryBytes:
  "MemoryBytes (fst (snd (basic fl env c w))) = flag_memory fl * 1024 * 1024 \<and>
   unat (MemoryBytes (fst (snd (basic fl env c w)))) =
     (unat (flag_memory fl) * 2 ^ 20) mod 2 ^ 64 \<and>
   (unat (flag_memory fl) < 2 ^ 44 \<longrightarrow>
      unat (MemoryBytes (fst (snd (basic fl env c w)))) = unat (flag_memory fl) * 2 ^ 20)"
proof -
  have a: "MemoryBytes (fst (snd (basic fl env c w))) = flag_memory fl * 1024 * 1024"
    by (rule basic_MemoryBytes_word)
  have b: "unat (flag_memory fl * 1024 * 1024) = (unat (flag_memory fl) * 2 ^ 20) mod 2 ^ 64"
    by (rule unat_mul_2_20)
  have c: "(unat (flag_memory fl) * 2 ^ 20) mod 2 ^ 64 = unat (flag_memory fl) * 2 ^ 20"
    if "unat (flag_memory fl) < 2 ^ 44"
  proof -
    from that have "unat (flag_memory fl) * 2 ^ 20 < 2 ^ 44 * 2 ^ 20" by simp
    then have "unat (flag_memory fl) * 2 ^ 20 < 2 ^ 64" by simp
    then show ?thesis by simp
  qed
  show ?thesis using a b c by simp
qed

theorem basic_MemoryBytes_witness:
  "unat (flag_memory ex_flags) < 2 ^ 44 \<and>
   unat (MemoryBytes (fst (snd (basic ex_flags ex_env Init ex_world)))) = 4294967296"
  using basic_MemoryBytes [of ex_flags ex_env Init ex_world]
  by (simp add: ex_flags_def)

subsection \<open>Fields written before a failure\<close>

lemma socket_fields_simps:
  "SocketPath (socket_fields fl p c) = p"
  "ForwardSocketPath (socket_fields fl p c) = Join p (flag_name fl @ ''-podman.sock'')"
  "SocketNetworkPath (socket_fields fl p c) = Join p (flag_name fl @ ''-vfkit-network.sock'')"
  "SocketInitrdVSockPath (socket_fields fl p c) = Join p (flag_name fl @ ''-initrd-vsock.sock'')"
  "SocketReadyPath (socket_fields fl p c) = Join p (flag_name fl @ ''-ready.sock'')"
  "RestfulSocketPath (socket_fields fl p c) = Join p (flag_name fl @ ''-restful.sock'')"
  "TimeSyncSocketPath (socket_fields fl p c) = Join p (flag_name fl @ ''-sync-time.sock'')"
  "SSHAuthSocketPath (socket_fields fl p c) = Join p (flag_name fl @ ''-ssh-auth.sock'')"
  "Endpoint (socket_fields fl p c) = ''unix://'' @ Join p (flag_name fl @ ''-vfkit-network.sock'')"
  by (simp_all add: socket_fields_def Let_def)

lemma socketPath_unfold:
  assumes "filepath_Abs env (flag_socketPath fl) = Inr p"
  shows "socketPath fl env c w =
     (case os_RemoveAll env p w of
        (Some e, w1) \<Rightarrow> (Some e, socket_fields fl p c, w1)
      | (None, w1) \<Rightarrow>
          (case os_MkdirAll env p w1 of (r, w2) \<Rightarrow> (r, socket_fields fl p c, w2)))"
  using assms
  by (simp add: socketPath_def Let_def socket_fields_simps split: prod.splits option.splits)

lemma socketPath_ctx:
  assumes "filepath_Abs env (flag_socketPath fl) = Inr p"
  shows "fst (snd (socketPath fl env c w)) = socket_fields fl p c"
  by (simp add: socketPath_unfold [OF assms] split: prod.splits option.splits)

lemma socketPath_error:
  assumes "filepath_Abs env (flag_socketPath fl) = Inr p"
  shows "fst (socketPath fl env c w) =
     (case fst (os_RemoveAll env p w) of
        Some e \<Rightarrow> Some e
      | None \<Rightarrow> fst (os_MkdirAll env p (snd (os_RemoveAll env p w))))"
  by (simp add: socketPath_unfold [OF assms] split: prod.splits option.splits)

lemma basic_flags_simps:
  "Name (basic_flags fl c) = flag_name fl"
  "CPUS (basic_flags fl c) = flag_cpus fl"
  "MemoryBytes (basic_flags fl c) = flag_memory fl * 1024 * 1024"
  "IsCliMode (basic_flags fl c) = flag_cliMode fl"
  "BindPID (basic_flags fl c) = flag_bindPID fl"
  "EventSocketPath (basic_flags fl c) = flag_eventSocketPath fl"
  "PowerSaveMode (basic_flags fl c) = flag_powerSaveMode fl"
  "KernelDebug (basic_flags fl c) = flag_kernelDebug fl"
  by (simp_all add: basic_flags_def)

lemma basic_mkdir_fails:
  assumes "fst (os_MkdirAll env ''/tmp/ovm'' w) = Some e"
  shows "basic fl env c w = (Some e, basic_flags fl c, snd (os_MkdirAll env ''/tmp/ovm'' w))"
  using assms by (cases "os_MkdirAll env ''/tmp/ovm'' w") (auto simp: basic_def Let_def)

text \<open>
  C8. A failing step does not leave the Context as it found it. \<^verbatim>\<open>socketPath\<close> writes
  \<^verbatim>\<open>SocketPath\<close>, the seven socket paths and \<^verbatim>\<open>Endpoint\<close> before it removes and
  recreates the directory: when \<^verbatim>\<open>RemoveAll\<close> fails, or \<^verbatim>\<open>MkdirAll\<close> after it, the
  method returns that error and the fields hold the derived values. \<^verbatim>\<open>basic\<close> writes
  the eight fields it copies from the flags before it creates \<^verbatim>\<open>/tmp/ovm\<close>: when that
  fails, the method returns the error and the fields hold the flags' values.
\<close>

theorem failing_steps_keep_written_fields:
  "(filepath_Abs env (flag_socketPath fl) = Inr p \<and>
    (fst (os_RemoveAll env p w) = Some e \<or>
     fst (os_RemoveAll env p w) = None \<and>
     fst (os_MkdirAll env p (snd (os_RemoveAll env p w))) = Some e) \<longrightarrow>
    fst (socketPath fl env c w) = Some e \<and>
    (let c' = fst (snd (socketPath fl env c w)) in
       SocketPath c' = p \<and>
       ForwardSocketPath c' = Join p (flag_name fl @ ''-podman.sock'') \<and>
       SocketNetworkPath c' = Join p (flag_name fl @ ''-vfkit-network.sock'') \<and>
       SocketInitrdVSockPath c' = Join p (flag_name fl @ ''-initrd-vsock.sock'') \<and>
       SocketReadyPath c' = Join p (flag_name fl @ ''-ready.sock'') \<and>
       RestfulSocketPath c' = Join p (flag_name fl @ ''-restful.sock'') \<and>
       TimeSyncSocketPath c' = Join p (flag_name fl @ ''-sync-time.sock'') \<and>
       SSHAuthSocketPath c' = Join p (flag_name fl @ ''-ssh-auth.sock'') \<and>
       Endpoint c' = ''unix://'' @ SocketNetworkPath c')) \<and>
   (fst (os_MkdirAll env ''/tmp/ovm'' w) = Some e \<longrightarrow>
    fst (basic fl env c w) = Some e \<and>
    (let c' = fst (snd (basic fl env c w)) in
       Name c' = flag_name fl \<and>
       CPUS c' = flag_cpus fl \<and>
       MemoryBytes c' = flag_memory fl * 1024 * 1024 \<and>
       IsCliMode c' = flag_cliMode fl \<and>
       BindPID c' = flag_bindPID fl \<and>
       EventSocketPath c' = flag_eventSocketPath fl \<and>
       PowerSaveMode c' = flag_powerSaveMode fl \<and>
       KernelDebug c' = flag_kernelDebug fl))"
proof (intro conjI impI)
  assume h: "filepath_Abs env (flag_socketPath fl) = Inr p \<and>
    (fst (os_RemoveAll env p w) = Some e \<or>
     fst (os_RemoveAll env p w) = None \<and>
     fst (os_MkdirAll env p (snd (os_RemoveAll env p w))) = Some e)"
  then have a: "filepath_Abs env (flag_socketPath fl) = Inr p" by simp
  from h show "fst (socketPath fl env c w) = Some e"
    by (auto simp: socketPath_error [OF a])
  show "let c' = fst (snd (socketPath fl env c w)) in
       SocketPath c' = p \<and>
       ForwardSocketPath c' = Join p (flag_name fl @ ''-podman.sock'') \<and>
       SocketNetworkPath c' = Join p (flag_name fl @ ''-vfkit-network.sock'') \<and>
       SocketInitrdVSockPath c' = Join p (flag_name fl @ ''-initrd-vsock.sock'') \<and>
       SocketReadyPath c' = Join p (flag_name fl @ ''-ready.sock'') \<and>
       RestfulSocketPath c' = Join p (flag_name fl @ ''-restful.sock'') \<and>
       TimeSyncSocketPath c' = Join p (flag_name fl @ ''-sync-time.sock'') \<and>
       SSHAuthSocketPath c' = Join p (flag_name fl @ ''-ssh-auth.sock'') \<and>
       Endpoint c' = ''unix://'' @ SocketNetworkPath c'"
    by (simp add: socketPath_ctx [OF a] socket_fields_simps)
next
  assume h: "fst (os_MkdirAll env ''/tmp/ovm'' w) = Some e"
  show "fst (basic fl env c w) = Some e"
    by (simp add: basic_mkdir_fails [OF h])
  show "let c' = fst (snd (basic fl env c w)) in
       Name c' = flag_name fl \<and>
       CPUS c' = flag_cpus fl \<and>
       MemoryBytes c' = flag_memory fl * 1024 * 1024 \<and>
       IsCliMode c' = flag_cliMode fl \<and>
       BindPID c' = flag_bindPID fl \<and>
       EventSocketPath c' = flag_eventSocketPath fl \<and>
       PowerSaveMode c' = flag_powerSaveMode fl \<and>
       KernelDebug c' = flag_kernelDebug fl"
    by (simp add: basic_mkdir_fails [OF h] basic_flags_simps)
qed

lemma Clean_run_ovm: "Clean ''/run/ovm'' = ''/run/ovm''"
  by (simp add: Clean_def IsAbs_def slash_def)

lemma abs_run_ovm: "filepath_Abs ex_env_denied ''/run/ovm'' = Inr ''/run/ovm''"
  by (simp add: filepath_Abs_def IsAbs_def slash_def Clean_run_ovm)

theorem failing_steps_keep_written_fields_witness:
  "fst (os_RemoveAll ex_env_denied ''/run/ovm'' ex_world) = Some (Errno ''EACCES'') \<and>
   fst (socketPath ex_flags ex_env_denied Init ex_world) = Some (Errno ''EACCES'') \<and>
   SocketPath (fst (snd (socketPath ex_flags ex_env_denied Init ex_world))) = ''/run/ovm'' \<and>
   SocketPath Init = [] \<and>
   fst (os_MkdirAll ex_env_denied ''/tmp/ovm'' ex_world) = Some (Errno ''EACCES'') \<and>
   fst (basic ex_flags ex_env_denied Init ex_world) = Some (Errno ''EACCES'') \<and>
   Name (fst (snd (basic ex_flags ex_env_denied Init ex_world))) = ''ovm'' \<and>
   Name Init = []"
proof -
  have r: "fst (os_RemoveAll ex_env_denied ''/run/ovm'' ex_world) = Some (Errno ''EACCES'')"
    by (simp add: os_RemoveAll_def ex_env_denied_def ends_in_dot_def Let_def suffix_to_prefix)
  have m: "fst (os_MkdirAll ex_env_denied ''/tmp/ovm'' ex_world) = Some (Errno ''EACCES'')"
    by (simp add: os_MkdirAll_def ex_env_denied_def Let_def)
  have a: "filepath_Abs ex_env_denied (flag_socketPath ex_flags) = Inr ''/run/ovm''"
    by (simp add: ex_flags_def abs_run_ovm)
  show ?thesis
    using failing_steps_keep_written_fields
      [of ex_env_denied ex_flags "''/run/ovm''" ex_world "Errno ''EACCES''" Init] r m a
    by (simp add: Let_def ex_flags_def Init_def)
qed

subsection \<open>Path elements\<close>

lemma split_slash_not_Nil: "split_slash s \<noteq> []"
  by (induction s) (auto split: list.splits)








lemma ancestors_self: "p \<in> set (ancestors p)"
  by (simp add: ancestors_def)


subsection \<open>The file-system calls\<close>

lemma MkdirAll_ok:
  assumes "os_MkdirAll env p w = (None, w')"
  shows "fs w' = (\<lambda>q. if q \<in> set (ancestors p) then Some Dir else fs w q)"
    and "calls w' = calls w @ [MkdirAll p]" and "p \<noteq> []"
  using assms
  by (auto simp: os_MkdirAll_def Let_def log_call_def split: option.splits if_splits)

lemma MkdirAll_calls: "calls (snd (os_MkdirAll env p w)) = calls w @ [MkdirAll p]"
  by (auto simp: os_MkdirAll_def Let_def log_call_def split: option.splits if_splits)

lemma RemoveAll_ok:
  assumes "os_RemoveAll env p w = (None, w')"
  shows "fs w' = (if p = [] then fs w else (\<lambda>q. if at_or_below p q then None else fs w q))"
    and "calls w' = calls w @ [RemoveAll p]"
  using assms
  by (auto simp: os_RemoveAll_def Let_def log_call_def split: option.splits if_splits)


subsection \<open>\<^verbatim>\<open>socketPath\<close> on success\<close>

lemma socket_fields_eq:
  "socket_fields fl p c =
     c\<lparr>SocketPath := p,
       ForwardSocketPath := Join p (flag_name fl @ ''-podman.sock''),
       SocketNetworkPath := Join p (flag_name fl @ ''-vfkit-network.sock''),
       SocketInitrdVSockPath := Join p (flag_name fl @ ''-initrd-vsock.sock''),
       SocketReadyPath := Join p (flag_name fl @ ''-ready.sock''),
       RestfulSocketPath := Join p (flag_name fl @ ''-restful.sock''),
       TimeSyncSocketPath := Join p (flag_name fl @ ''-sync-time.sock''),
       SSHAuthSocketPath := Join p (flag_name fl @ ''-ssh-auth.sock''),
       Endpoint := ''unix://'' @ Join p (flag_name fl @ ''-vfkit-network.sock'')\<rparr>"
  by (simp add: socket_fields_def Let_def)

lemma socketPath_None:
  assumes "socketPath fl env c w = (None, c', w')"
  shows "\<exists>p w1. filepath_Abs env (flag_socketPath fl) = Inr p \<and> c' = socket_fields fl p c \<and>
           os_RemoveAll env p w = (None, w1) \<and> os_MkdirAll env p w1 = (None, w')"
proof (cases "filepath_Abs env (flag_socketPath fl)")
  case (Inl e)
  with assms show ?thesis by (simp add: socketPath_def)
next
  case (Inr p)
  from assms show ?thesis
    unfolding socketPath_unfold [OF Inr]
    by (auto simp: Inr split: prod.splits option.splits)
qed



lemma ex_Clean_run_ovm: "Clean ''/run/ovm'' = ''/run/ovm''"
  by (simp add: Clean_def IsAbs_def slash_def)

lemma ex_ancestors_run_ovm: "ancestors ''/run/ovm'' = [''/run/ovm'', ''/run'']"
  by (simp add: ancestors_def path_elems_def slash_def)



subsection \<open>The paths \<^verbatim>\<open>target\<close> derives\<close>

lemma target_fields_simps:
  "TargetPath (target_fields fl c) = TargetPath c"
  "VersionsPath (target_fields fl c) = Join (TargetPath c) ''versions.json''"
  "KernelPath (target_fields fl c) = Join (TargetPath c) (Base (flag_kernelPath fl))"
  "InitrdPath (target_fields fl c) = Join (TargetPath c) (Base (flag_initrdPath fl))"
  "RootfsPath (target_fields fl c) = Join (TargetPath c) (Base (flag_rootfsPath fl))"
  "DiskDataPath (target_fields fl c) = Join (TargetPath c) ''data.img''"
  "DiskTmpPath (target_fields fl c) = Join (TargetPath c) ''tmp.img''"
  by (simp_all add: target_fields_def)



lemma ex_Clean_t: "Clean ''/t'' = ''/t''"
  by (simp add: Clean_def IsAbs_def slash_def)

lemma ex_ancestors_t: "ancestors ''/t'' = [''/t'']"
  by (simp add: ancestors_def path_elems_def slash_def)


subsection \<open>\<^verbatim>\<open>ssh\<close>: the key pair\<close>

lemma ssh_unfold:
  assumes "filepath_Abs env (flag_sshKeyPath fl) = Inr p" and "os_MkdirAll env p w = (None, w1)"
    and "c1 = c\<lparr>SSHKeyPath := p, SSHPrivateKeyPath := Join p (flag_name fl),
                  SSHPublicKeyPath := Join p (flag_name fl @ ''.pub'')\<rparr>"
  shows "ssh fl env c w =
     (case ssh_keys fl env c1 w1 of
        (Some e, w2) \<Rightarrow> (Some e, c1, w2)
      | (None, w2) \<Rightarrow>
         (case ssh_read env c1 w2 of
            Inl e \<Rightarrow> (Some e, c1, w2)
          | Inr b \<Rightarrow> (None, c1\<lparr>SSHPublicKey := TrimSpace b\<rparr>, w2)))"
  using assms(1,2) unfolding assms(3) by (simp add: ssh_def Let_def)



lemma at_or_below_refl: "at_or_below p p"
  by (simp add: at_or_below_def)









subsection \<open>\<^verbatim>\<open>ssh\<close>: regeneration of the key pair\<close>

lemma MkdirAll_fs:
  assumes "fst (os_MkdirAll env p w) = None"
  shows "fs (snd (os_MkdirAll env p w)) q = (if q \<in> set (ancestors p) then Some Dir else fs w q)"
proof -
  obtain w' where m: "os_MkdirAll env p w = (None, w')"
    using assms by (metis prod.collapse)
  show ?thesis by (simp add: m MkdirAll_ok(1) [OF m])
qed

lemma RemoveAll_fs:
  assumes "fst (os_RemoveAll env p w) = None" and "p \<noteq> []"
  shows "fs (snd (os_RemoveAll env p w)) q = (if at_or_below p q then None else fs w q)"
proof -
  obtain w' where r: "os_RemoveAll env p w = (None, w')"
    using assms(1) by (metis prod.collapse)
  show ?thesis using assms(2) by (simp add: r RemoveAll_ok(1) [OF r])
qed


lemma ssh_keys_no_regen:
  assumes "\<not> ssh_stat_failed env c w"
  shows "ssh_keys fl env c w = (None, w)"
  using assms by (simp add: ssh_keys_def)

lemma ssh_keys_regen:
  assumes "ssh_stat_failed env c w"
  shows "ssh_keys fl env c w =
     utils_GenerateSSHKey env (SSHKeyPath c) (flag_name fl)
       (snd (os_RemoveAll env (SSHPublicKeyPath c) (snd (os_RemoveAll env (SSHPrivateKeyPath c) w))))"
  using assms by (simp add: ssh_keys_def Let_def)



lemma ex_abs_ssh: "filepath_Abs ex_env (flag_sshKeyPath ex_flags) = Inr ''/home/u/ssh''"
  by (simp add: filepath_Abs_def IsAbs_def ex_flags_def ex_env_def slash_def Join_def Clean_def)

lemma ex_ancestors_ssh: "ancestors ''/home/u/ssh'' = [''/home/u/ssh'', ''/home'', ''/home/u'']"
  by (simp add: ancestors_def path_elems_def slash_def)

lemma ex_join_ssh:
  "Join ''/home/u/ssh'' ''ovm'' = ''/home/u/ssh/ovm''"
  "Join ''/home/u/ssh'' ''ovm.pub'' = ''/home/u/ssh/ovm.pub''"
  by (simp_all add: Join_def Clean_def IsAbs_def slash_def)

lemma ex_name: "flag_name ex_flags = ''ovm''"
  by (simp add: ex_flags_def)


lemma ex_fault: "fault ex_env k = None"
  by (simp add: ex_env_def)


subsection \<open>\<^verbatim>\<open>ssh\<close>: the public key and the errors\<close>








lemma ex_env_fault_simps:
  "Getwd (ex_env_fault k) = Inr ''/home/u''"
  "keypair (ex_env_fault k) = (''PRIVATE KEY'', ''ssh-ed25519 AAAA ovm'' @ [CHR 0x0A])"
  "fault (ex_env_fault k) k' = (if k' = k then Some (Errno ''EIO'') else None)"
  by (simp_all add: ex_env_fault_def ex_env_def)



subsection \<open>\<^verbatim>\<open>target\<close>: the scratch disk\<close>

lemma target_unfold:
  assumes "filepath_Abs env (flag_targetPath fl) = Inr p" and "os_MkdirAll env p w = (None, w1)"
    and "newTarget env p (flag_kernelPath fl) (flag_initrdPath fl) (flag_rootfsPath fl)
           (Join p ''data.img'') (Join p ''versions.json'') w1 = (Inr t, w2)"
    and "target_handle env t w2 = (None, w3)"
  shows "target fl env c w =
     (case target_tmp_disk env (target_fields fl (c\<lparr>TargetPath := p\<rparr>)) w3 of
        (r, w4) \<Rightarrow> (r, target_fields fl (c\<lparr>TargetPath := p\<rparr>), w4))"
  using assms by (simp add: target_def Let_def target_fields_simps)

lemma CreateSparseFile_calls:
  "calls (snd (utils_CreateSparseFile env p n w)) = calls w @ [CreateSparseFile p n]"
  by (auto simp: utils_CreateSparseFile_def Let_def log_call_def split: option.splits)

lemma tmp_disk_size_eq: "tmp_disk_size = 2 ^ 40"
  by (simp add: tmp_disk_size_def)

lemma target_tmp_disk_cases:
  "target_tmp_disk env c w =
     (if isl (os_Stat env (DiskTmpPath c) w)
      then utils_CreateSparseFile env (DiskTmpPath c) (2 ^ 40) w else (None, w))"
  by (simp add: target_tmp_disk_def tmp_disk_size_def split: sum.splits)

lemma Stat_missing: "fs w p = None \<Longrightarrow> isl (os_Stat env p w)"
  by (simp add: os_Stat_def split: option.splits)

lemma Stat_ok_exists: "\<not> isl (os_Stat env p w) \<Longrightarrow> fs w p \<noteq> None"
  using Stat_missing by blast

lemma target_step_alloc:
  assumes "filepath_Abs env (flag_targetPath fl) = Inr p" and "os_MkdirAll env p w = (None, w1)"
    and "newTarget env p (flag_kernelPath fl) (flag_initrdPath fl) (flag_rootfsPath fl)
           (Join p ''data.img'') (Join p ''versions.json'') w1 = (Inr t, w2)"
    and "target_handle env t w2 = (None, w3)"
    and "isl (os_Stat env (Join p ''tmp.img'') w3)"
  shows "target fl env c w =
      (fst (utils_CreateSparseFile env (Join p ''tmp.img'') (2 ^ 40) w3),
       target_fields fl (c\<lparr>TargetPath := p\<rparr>),
       snd (utils_CreateSparseFile env (Join p ''tmp.img'') (2 ^ 40) w3))"
  unfolding target_unfold [OF assms(1-4)] target_tmp_disk_cases
  using assms(5) by (simp add: case_prod_beta target_fields_simps)

lemma target_step_noop:
  assumes "filepath_Abs env (flag_targetPath fl) = Inr p" and "os_MkdirAll env p w = (None, w1)"
    and "newTarget env p (flag_kernelPath fl) (flag_initrdPath fl) (flag_rootfsPath fl)
           (Join p ''data.img'') (Join p ''versions.json'') w1 = (Inr t, w2)"
    and "target_handle env t w2 = (None, w3)"
    and "\<not> isl (os_Stat env (Join p ''tmp.img'') w3)"
  shows "target fl env c w = (None, target_fields fl (c\<lparr>TargetPath := p\<rparr>), w3)"
  unfolding target_unfold [OF assms(1-4)] target_tmp_disk_cases
  using assms(5) by (simp add: target_fields_simps)

text \<open>
  C4, as the code has it. Once \<^verbatim>\<open>target\<close> has reached its last step, in the world \<open>w3\<close>
  the reconciliation left: when \<^verbatim>\<open>os.Stat\<close> of \<^verbatim>\<open>DiskTmpPath\<close> returns an error, which it
  does when nothing is there, \<^verbatim>\<open>CreateSparseFile\<close> is called once with that path and
  \<open>2 ^ 40\<close> bytes and \<^verbatim>\<open>target\<close> returns its result; when \<^verbatim>\<open>os.Stat\<close> succeeds, something
  is there, nothing is called, the world stays as it is and \<^verbatim>\<open>target\<close> returns \<^verbatim>\<open>nil\<close>.
\<close>

theorem target_scratch_disk:
  assumes "filepath_Abs env (flag_targetPath fl) = Inr p" and "os_MkdirAll env p w = (None, w1)"
    and "newTarget env p (flag_kernelPath fl) (flag_initrdPath fl) (flag_rootfsPath fl)
           (Join p ''data.img'') (Join p ''versions.json'') w1 = (Inr t, w2)"
    and "target_handle env t w2 = (None, w3)"
  shows "let tmp = Join p ''tmp.img''; res = target fl env c w; w' = snd (snd res) in
     DiskTmpPath (fst (snd res)) = tmp \<and>
     (fs w3 tmp = None \<longrightarrow> isl (os_Stat env tmp w3)) \<and>
     (isl (os_Stat env tmp w3) \<longrightarrow>
        calls w' = calls w3 @ [CreateSparseFile tmp (2 ^ 40)] \<and>
        fst res = fst (utils_CreateSparseFile env tmp (2 ^ 40) w3) \<and>
        w' = snd (utils_CreateSparseFile env tmp (2 ^ 40) w3)) \<and>
     (\<not> isl (os_Stat env tmp w3) \<longrightarrow> fs w3 tmp \<noteq> None \<and> fst res = None \<and> w' = w3)"
proof -
  have A: "fs w3 (Join p ''tmp.img'') = None \<longrightarrow> isl (os_Stat env (Join p ''tmp.img'') w3)"
    by (simp add: Stat_missing)
  have B: "fs w3 (Join p ''tmp.img'') \<noteq> None" if "\<not> isl (os_Stat env (Join p ''tmp.img'') w3)"
    using that by (rule Stat_ok_exists)
  note C = target_step_alloc [OF assms, of c]
  note D = target_step_noop [OF assms, of c]
  have E: "DiskTmpPath (fst (snd (target fl env c w))) = Join p ''tmp.img''"
    unfolding target_unfold [OF assms] by (simp add: target_fields_simps case_prod_beta)
  show ?thesis
    unfolding Let_def
    using A B E by (auto simp: C D CreateSparseFile_calls)
qed

lemma ex_join_t:
  "Join ''/t'' ''data.img'' = ''/t/data.img''"
  "Join ''/t'' ''versions.json'' = ''/t/versions.json''"
  "Join ''/t'' ''tmp.img'' = ''/t/tmp.img''"
  by (simp_all add: Join_def Clean_def IsAbs_def slash_def)

lemma ex_abs_t: "filepath_Abs env (flag_targetPath ex_flags) = Inr ''/t''"
  by (simp add: filepath_Abs_def IsAbs_def ex_flags_def slash_def ex_Clean_t)

lemma ex_target_reach:
  assumes f: "fault env (MkdirAll ''/t'') = None" "fault env (NewTarget ex_target_args) = None"
    and r: "reconcile env = (\<lambda>t f. Inr f)"
    and d: "fs w ''/t'' = Some Dir"
  shows "\<exists>w1 w2 w3. os_MkdirAll env ''/t'' w = (None, w1) \<and>
     newTarget env ''/t'' (flag_kernelPath ex_flags) (flag_initrdPath ex_flags)
       (flag_rootfsPath ex_flags) (Join ''/t'' ''data.img'') (Join ''/t'' ''versions.json'') w1 =
       (Inr ex_target_args, w2) \<and>
     target_handle env ex_target_args w2 = (None, w3) \<and>
     fs w3 = fs w \<and>
     calls w3 = calls w @ [MkdirAll ''/t'', NewTarget ex_target_args, TargetHandle ex_target_args]"
proof -
  have m0: "fst (os_MkdirAll env ''/t'' w) = None"
    using f(1) d by (simp add: os_MkdirAll_def Let_def ex_ancestors_t not_a_dir_def)
  define w1 where "w1 = snd (os_MkdirAll env ''/t'' w)"
  have m: "os_MkdirAll env ''/t'' w = (None, w1)"
    using m0 by (simp add: w1_def prod_eq_iff)
  have f1: "fs w1 = fs w"
    using d by (auto simp: MkdirAll_ok(1) [OF m] ex_ancestors_t)
  define w2 where "w2 = log_call (NewTarget ex_target_args) w1"
  have n: "newTarget env ''/t'' (flag_kernelPath ex_flags) (flag_initrdPath ex_flags)
       (flag_rootfsPath ex_flags) (Join ''/t'' ''data.img'') (Join ''/t'' ''versions.json'') w1 =
       (Inr ex_target_args, w2)"
    using f(2) by (simp add: newTarget_def Let_def ex_join_t ex_flags_def ex_target_args_def w2_def)
  define w3 where "w3 = (log_call (TargetHandle ex_target_args) w2)\<lparr>fs := fs w2\<rparr>"
  have h: "target_handle env ex_target_args w2 = (None, w3)"
    by (simp add: target_handle_def Let_def r w3_def)
  have "fs w3 = fs w" by (simp add: w3_def w2_def log_call_def f1)
  moreover have "calls w3 = calls w @ [MkdirAll ''/t'', NewTarget ex_target_args, TargetHandle ex_target_args]"
    by (simp add: w3_def w2_def log_call_def MkdirAll_ok(2) [OF m])
  ultimately show ?thesis using m n h by blast
qed

lemma ex_env_fault_more:
  "reconcile (ex_env_fault k) = (\<lambda>t f. Inr f)"
  "reconcile ex_env = (\<lambda>t f. Inr f)"
  by (simp_all add: ex_env_fault_def ex_env_def)

text \<open>
  C4 as the claim states it fails: a file exists at \<^verbatim>\<open>DiskTmpPath\<close>, \<^verbatim>\<open>os.Stat\<close> fails
  for another reason, and the allocation is requested over the file.
\<close>

theorem target_scratch_disk_counterexample:
  "fs ex_world_tmp ''/t/tmp.img'' = Some (File ''scratch data'') \<and>
   DiskTmpPath (fst (snd (target ex_flags (ex_env_fault (Stat ''/t/tmp.img'')) Init ex_world_tmp))) =
     ''/t/tmp.img'' \<and>
   calls (snd (snd (target ex_flags (ex_env_fault (Stat ''/t/tmp.img'')) Init ex_world_tmp))) =
     [MkdirAll ''/t'', NewTarget ex_target_args, TargetHandle ex_target_args,
      CreateSparseFile ''/t/tmp.img'' (2 ^ 40)] \<and>
   fs (snd (snd (target ex_flags (ex_env_fault (Stat ''/t/tmp.img'')) Init ex_world_tmp)))
     ''/t/tmp.img'' = Some (SparseFile (2 ^ 40))"
proof -
  let ?env = "ex_env_fault (Stat ''/t/tmp.img'')"
  have old: "fs ex_world_tmp ''/t/tmp.img'' = Some (File ''scratch data'')"
    by (simp add: ex_world_tmp_def)
  have "\<exists>w1 w2 w3. os_MkdirAll ?env ''/t'' ex_world_tmp = (None, w1) \<and>
     newTarget ?env ''/t'' (flag_kernelPath ex_flags) (flag_initrdPath ex_flags)
       (flag_rootfsPath ex_flags) (Join ''/t'' ''data.img'') (Join ''/t'' ''versions.json'') w1 =
       (Inr ex_target_args, w2) \<and>
     target_handle ?env ex_target_args w2 = (None, w3) \<and>
     fs w3 = fs ex_world_tmp \<and>
     calls w3 = calls ex_world_tmp @ [MkdirAll ''/t'', NewTarget ex_target_args, TargetHandle ex_target_args]"
    by (rule ex_target_reach) (simp_all add: ex_env_fault_simps ex_env_fault_more ex_world_tmp_def)
  then obtain w1 w2 w3 where m: "os_MkdirAll ?env ''/t'' ex_world_tmp = (None, w1)"
    and n: "newTarget ?env ''/t'' (flag_kernelPath ex_flags) (flag_initrdPath ex_flags)
       (flag_rootfsPath ex_flags) (Join ''/t'' ''data.img'') (Join ''/t'' ''versions.json'') w1 =
       (Inr ex_target_args, w2)"
    and h: "target_handle ?env ex_target_args w2 = (None, w3)"
    and f3: "fs w3 = fs ex_world_tmp"
    and c3: "calls w3 = calls ex_world_tmp @ [MkdirAll ''/t'', NewTarget ex_target_args, TargetHandle ex_target_args]"
    by blast
  have st: "isl (os_Stat ?env (Join ''/t'' ''tmp.img'') w3)"
    by (simp add: os_Stat_def ex_env_fault_simps ex_join_t)
  note u = target_step_alloc [OF ex_abs_t m n h st, of Init]
  have cr: "utils_CreateSparseFile ?env ''/t/tmp.img'' (2 ^ 40) w3 =
      (None, (log_call (CreateSparseFile ''/t/tmp.img'' (2 ^ 40)) w3)
               \<lparr>fs := (fs w3)(''/t/tmp.img'' \<mapsto> SparseFile (2 ^ 40))\<rparr>)"
    by (simp add: utils_CreateSparseFile_def Let_def ex_env_fault_simps is_dir_def f3 old)
  show ?thesis
    unfolding u ex_join_t cr
    by (simp add: old target_fields_simps ex_join_t log_call_def c3 ex_world_tmp_def)
qed

theorem target_scratch_disk_witness:
  "fs ex_world_t ''/t/tmp.img'' = None \<and>
   calls (snd (snd (target ex_flags ex_env Init ex_world_t))) =
     [MkdirAll ''/t'', NewTarget ex_target_args, TargetHandle ex_target_args,
      CreateSparseFile ''/t/tmp.img'' (2 ^ 40)] \<and>
   fs ex_world_tmp ''/t/tmp.img'' = Some (File ''scratch data'') \<and>
   fst (target ex_flags ex_env Init ex_world_tmp) = None \<and>
   calls (snd (snd (target ex_flags ex_env Init ex_world_tmp))) =
     [MkdirAll ''/t'', NewTarget ex_target_args, TargetHandle ex_target_args] \<and>
   fs (snd (snd (target ex_flags ex_env Init ex_world_tmp))) ''/t/tmp.img'' =
     Some (File ''scratch data'')"
proof -
  have reach: "\<exists>w1 w2 w3. os_MkdirAll ex_env ''/t'' w = (None, w1) \<and>
     newTarget ex_env ''/t'' (flag_kernelPath ex_flags) (flag_initrdPath ex_flags)
       (flag_rootfsPath ex_flags) (Join ''/t'' ''data.img'') (Join ''/t'' ''versions.json'') w1 =
       (Inr ex_target_args, w2) \<and>
     target_handle ex_env ex_target_args w2 = (None, w3) \<and>
     fs w3 = fs w \<and>
     calls w3 = calls w @ [MkdirAll ''/t'', NewTarget ex_target_args, TargetHandle ex_target_args]"
    if "fs w ''/t'' = Some Dir" for w
    using that by (intro ex_target_reach) (simp_all add: ex_fault ex_env_fault_more)
  have A: "calls (snd (snd (target ex_flags ex_env Init ex_world_t))) =
     [MkdirAll ''/t'', NewTarget ex_target_args, TargetHandle ex_target_args,
      CreateSparseFile ''/t/tmp.img'' (2 ^ 40)]"
  proof -
    from reach [of ex_world_t] obtain w1 w2 w3 where m: "os_MkdirAll ex_env ''/t'' ex_world_t = (None, w1)"
      and n: "newTarget ex_env ''/t'' (flag_kernelPath ex_flags) (flag_initrdPath ex_flags)
         (flag_rootfsPath ex_flags) (Join ''/t'' ''data.img'') (Join ''/t'' ''versions.json'') w1 =
         (Inr ex_target_args, w2)"
      and h: "target_handle ex_env ex_target_args w2 = (None, w3)"
      and f3: "fs w3 = fs ex_world_t"
      and c3: "calls w3 = calls ex_world_t @ [MkdirAll ''/t'', NewTarget ex_target_args, TargetHandle ex_target_args]"
      by (auto simp: ex_world_t_def)
    have none: "fs w3 ''/t/tmp.img'' = None" by (simp add: f3 ex_world_t_def)
    have c3': "calls w3 = [MkdirAll ''/t'', NewTarget ex_target_args, TargetHandle ex_target_args]"
      using c3 by (simp add: ex_world_t_def)
    note T = target_scratch_disk [OF ex_abs_t m n h, of Init, unfolded Let_def ex_join_t]
    from T none have "calls (snd (snd (target ex_flags ex_env Init ex_world_t))) =
        calls w3 @ [CreateSparseFile ''/t/tmp.img'' (2 ^ 40)]"
      by blast
    then show ?thesis by (simp add: c3')
  qed
  have B: "fst (target ex_flags ex_env Init ex_world_tmp) = None \<and>
     calls (snd (snd (target ex_flags ex_env Init ex_world_tmp))) =
       [MkdirAll ''/t'', NewTarget ex_target_args, TargetHandle ex_target_args] \<and>
     fs (snd (snd (target ex_flags ex_env Init ex_world_tmp))) ''/t/tmp.img'' =
       Some (File ''scratch data'')"
  proof -
    from reach [of ex_world_tmp] obtain w1 w2 w3 where m: "os_MkdirAll ex_env ''/t'' ex_world_tmp = (None, w1)"
      and n: "newTarget ex_env ''/t'' (flag_kernelPath ex_flags) (flag_initrdPath ex_flags)
         (flag_rootfsPath ex_flags) (Join ''/t'' ''data.img'') (Join ''/t'' ''versions.json'') w1 =
         (Inr ex_target_args, w2)"
      and h: "target_handle ex_env ex_target_args w2 = (None, w3)"
      and f3: "fs w3 = fs ex_world_tmp"
      and c3: "calls w3 = calls ex_world_tmp @ [MkdirAll ''/t'', NewTarget ex_target_args, TargetHandle ex_target_args]"
      by (auto simp: ex_world_tmp_def)
    have st: "\<not> isl (os_Stat ex_env ''/t/tmp.img'' w3)"
      by (simp add: os_Stat_def ex_fault f3 ex_world_tmp_def)
    have c3': "calls w3 = [MkdirAll ''/t'', NewTarget ex_target_args, TargetHandle ex_target_args]"
      using c3 by (simp add: ex_world_tmp_def)
    have f3': "fs w3 ''/t/tmp.img'' = Some (File ''scratch data'')"
      by (simp add: f3 ex_world_tmp_def)
    note T = target_scratch_disk [OF ex_abs_t m n h, of Init, unfolded Let_def ex_join_t]
    from T st have "fst (target ex_flags ex_env Init ex_world_tmp) = None \<and>
        snd (snd (target ex_flags ex_env Init ex_world_tmp)) = w3"
      by blast
    then show ?thesis by (simp add: c3' f3')
  qed
  from A B show ?thesis by (simp add: ex_world_t_def ex_world_tmp_def)
qed

subsection \<open>The error group\<close>

lemma group_run_Cons:
  "group_run (t # ts) s =
     (fst (t s) # fst (group_run ts (snd (t s))), snd (group_run ts (snd (t s))))"
  by (simp split: prod.splits)

lemma group_run_length: "length (fst (group_run ts s)) = length ts"
  by (induction ts arbitrary: s) (simp_all add: group_run_Cons del: group_run.simps(2))

lemma group_run_nth:
  "i < length ts \<Longrightarrow>
     fst (group_run ts s) ! i = fst ((ts ! i) (snd (group_run (take i ts) s)))"
proof (induction ts arbitrary: s i)
  case Nil
  then show ?case by simp
next
  case (Cons t ts)
  show ?case
  proof (cases i)
    case 0
    then show ?thesis by (simp add: group_run_Cons del: group_run.simps(2))
  next
    case (Suc k)
    with Cons.prems have "k < length ts" by simp
    from Cons.IH [OF this, of "snd (t s)"] show ?thesis
      by (simp add: Suc group_run_Cons del: group_run.simps(2))
  qed
qed

lemma first_error_None: "first_error rs = None \<longleftrightarrow> (\<forall>i<length rs. rs ! i = None)"
proof (induction rs rule: first_error.induct)
  case 1
  then show ?case by simp
next
  case (2 rs)
  then show ?case by (auto simp: less_Suc_eq_0_disj)
next
  case (3 e rs)
  then show ?case by auto
qed

lemma first_error_Some:
  "first_error rs = Some e \<longleftrightarrow> (\<exists>i<length rs. rs ! i = Some e \<and> (\<forall>j<i. rs ! j = None))"
proof (induction rs rule: first_error.induct)
  case 1
  then show ?case by simp
next
  case (2 rs)
  show ?case
  proof
    assume "first_error (None # rs) = Some e"
    with 2 obtain i where "i < length rs" "rs ! i = Some e" "\<forall>j<i. rs ! j = None" by auto
    then have "Suc i < length (None # rs) \<and> (None # rs) ! Suc i = Some e \<and>
        (\<forall>j<Suc i. (None # rs) ! j = None)"
      by (auto simp: less_Suc_eq_0_disj)
    then show "\<exists>i<length (None # rs). (None # rs) ! i = Some e \<and> (\<forall>j<i. (None # rs) ! j = None)"
      by blast
  next
    assume "\<exists>i<length (None # rs). (None # rs) ! i = Some e \<and> (\<forall>j<i. (None # rs) ! j = None)"
    then obtain i where i: "i < length (None # rs)" "(None # rs) ! i = Some e"
      "\<forall>j<i. (None # rs) ! j = None" by blast
    then obtain k where k: "i = Suc k" by (cases i) auto
    with i have "k < length rs \<and> rs ! k = Some e \<and> (\<forall>j<k. rs ! j = None)" by auto
    with 2 show "first_error (None # rs) = Some e" by auto
  qed
next
  case (3 e' rs)
  show ?case
  proof
    assume "first_error (Some e' # rs) = Some e"
    then have "e' = e" by simp
    then have "0 < length (Some e' # rs) \<and> (Some e' # rs) ! 0 = Some e \<and>
        (\<forall>j<0. (Some e' # rs) ! j = None)" by simp
    then show "\<exists>i<length (Some e' # rs). (Some e' # rs) ! i = Some e \<and>
        (\<forall>j<i. (Some e' # rs) ! j = None)" by blast
  next
    assume "\<exists>i<length (Some e' # rs). (Some e' # rs) ! i = Some e \<and>
        (\<forall>j<i. (Some e' # rs) ! j = None)"
    then obtain i where i: "(Some e' # rs) ! i = Some e" "\<forall>j<i. (Some e' # rs) ! j = None"
      by blast
    have "i = 0"
    proof (rule ccontr)
      assume "i \<noteq> 0"
      then have "0 < i" by simp
      with i(2) have "(Some e' # rs) ! 0 = None" by blast
      then show False by simp
    qed
    with i(1) show "first_error (Some e' # rs) = Some e" by simp
  qed
qed

lemma scheduled_perm:
  assumes "distinct started"
  shows "distinct (scheduled started sched)" and "set (scheduled started sched) = set started"
  using assms by (auto simp: scheduled_def)

lemma scheduled_length:
  assumes "distinct started"
  shows "length (scheduled started sched) = length started"
proof -
  have "card (set (scheduled started sched)) = card (set started)"
    by (simp add: scheduled_perm(2) [OF assms])
  then show ?thesis
    using scheduled_perm(1) [OF assms, of sched] assms by (simp add: distinct_card)
qed

lemma group_Wait_spec:
  "fst (group_Wait ts s) = first_error (fst (group_run ts s))"
  "snd (group_Wait ts s) = snd (group_run ts s)"
  by (simp_all add: group_Wait_def split: prod.splits)

subsection \<open>What each step does when it returns \<^verbatim>\<open>nil\<close>\<close>

lemma MkdirAll_fst:
  "fst (os_MkdirAll env p w) =
     (if p = [] then Some (Errno ''ENOENT'')
      else case fault env (MkdirAll p) of
        Some e \<Rightarrow> Some e
      | None \<Rightarrow> if list_ex (not_a_dir (fs w)) (ancestors p) then Some (Errno ''ENOTDIR'') else None)"
  by (simp add: os_MkdirAll_def Let_def split: option.splits)

lemma basic_unfold:
  "basic fl env c w =
     (case os_MkdirAll env ''/tmp/ovm'' w of
        (Some e, w1) \<Rightarrow> (Some e, basic_flags fl c, w1)
      | (None, w1) \<Rightarrow>
         (case Executable env of
            Inl e \<Rightarrow> (Some (Errorf ''get executable path error: '' e), basic_flags fl c, w1)
          | Inr p \<Rightarrow>
             (case EvalSymlinks env p of
                Inl e \<Rightarrow> (Some (Errorf ''eval symlink error: '' e), basic_flags fl c, w1)
              | Inr q \<Rightarrow>
                  (None,
                   (basic_flags fl c)\<lparr>ExecutablePath := ToLower q,
                                       LockFile := lock_file (ToLower q) (flag_name fl)\<rparr>,
                   w1))))"
  by (auto simp: basic_def Let_def split: prod.splits option.splits sum.splits)

lemma basic_None:
  assumes "basic fl env c w = (None, c', w')"
  shows "\<exists>p q. os_MkdirAll env ''/tmp/ovm'' w = (None, w') \<and> Executable env = Inr p \<and>
           EvalSymlinks env p = Inr q \<and>
           c' = (basic_flags fl c)\<lparr>ExecutablePath := ToLower q,
                                     LockFile := lock_file (ToLower q) (flag_name fl)\<rparr>"
  using assms unfolding basic_unfold
  by (auto split: prod.splits option.splits sum.splits)

lemma basic_success:
  assumes "fst (os_MkdirAll env ''/tmp/ovm'' w) = None" and "Executable env = Inr p"
    and "EvalSymlinks env p = Inr q"
  shows "basic fl env c w =
     (None,
      (basic_flags fl c)\<lparr>ExecutablePath := ToLower q,
                          LockFile := lock_file (ToLower q) (flag_name fl)\<rparr>,
      snd (os_MkdirAll env ''/tmp/ovm'' w))"
  using assms unfolding basic_unfold
  by (cases "os_MkdirAll env ''/tmp/ovm'' w") simp

lemma logPath_unfold:
  assumes "filepath_Abs env (flag_logPath fl) = Inr p"
  shows "logPath fl env c w =
     (fst (os_MkdirAll env p w), c\<lparr>LogPath := p\<rparr>, snd (os_MkdirAll env p w))"
  using assms by (simp add: logPath_def Let_def case_prod_beta)

lemma logPath_None:
  assumes "logPath fl env c w = (None, c', w')"
  shows "\<exists>p. filepath_Abs env (flag_logPath fl) = Inr p \<and> os_MkdirAll env p w = (None, w') \<and>
           c' = c\<lparr>LogPath := p\<rparr>"
proof (cases "filepath_Abs env (flag_logPath fl)")
  case (Inl e)
  with assms show ?thesis by (simp add: logPath_def)
next
  case (Inr p)
  from assms show ?thesis
    unfolding logPath_unfold [OF Inr] by (auto simp: Inr prod_eq_iff)
qed

lemma group_Wait_started:
  assumes d: "distinct started"
  shows "let gs = scheduled started sched;
             ts = map T gs;
             rs = fst (group_run ts s);
             r = fst (group_Wait ts s)
         in distinct gs \<and> set gs = set started \<and> length rs = length started \<and>
            (\<forall>i<length started. rs ! i = fst (T (gs ! i) (snd (group_run (map T (take i gs)) s)))) \<and>
            (r = None \<longleftrightarrow> (\<forall>i<length started. rs ! i = None)) \<and>
            (\<forall>e. r = Some e \<longleftrightarrow>
               (\<exists>i<length started. rs ! i = Some e \<and> (\<forall>j<i. rs ! j = None)))"
proof -
  define gs where "gs = scheduled started sched"
  define rs where "rs = fst (group_run (map T gs) s)"
  have l: "length gs = length started"
    unfolding gs_def by (rule scheduled_length [OF d])
  have lr: "length rs = length started"
    by (simp add: rs_def group_run_length l)
  have n: "rs ! i = fst (T (gs ! i) (snd (group_run (map T (take i gs)) s)))"
    if "i < length started" for i
    using that group_run_nth [of i "map T gs" s] by (simp add: rs_def l take_map)
  have r: "fst (group_Wait (map T gs) s) = first_error rs"
    by (simp add: group_Wait_spec rs_def)
  show ?thesis
    unfolding Let_def gs_def [symmetric] rs_def [symmetric] r
    using scheduled_perm [OF d, of sched] lr n
    by (simp add: gs_def first_error_None first_error_Some)
qed

text \<open>
  C6. \<^verbatim>\<open>PreSetup\<close> runs \<^verbatim>\<open>basic\<close> and \<^verbatim>\<open>logPath\<close>, \<^verbatim>\<open>Setup\<close> runs \<^verbatim>\<open>socketPath\<close>,
  \<^verbatim>\<open>ssh\<close>, \<^verbatim>\<open>sshPort\<close> and \<^verbatim>\<open>target\<close>, each exactly once and in some order, the \<open>i\<close>-th in
  the state the ones before it left. The call returns \<^verbatim>\<open>nil\<close> exactly when every one of
  them returned \<^verbatim>\<open>nil\<close>, and it returns the error \<open>e\<close> exactly when \<open>e\<close> is what the first
  of them to fail returned.
\<close>

theorem PreSetup_Setup_first_error:
  "(let gs = scheduled PreSetup_started sched;
        rs = fst (group_run (map (run_goroutine fl env) gs) (c, w));
        r = fst (PreSetup fl env sched c w)
    in distinct gs \<and> set gs = {G_basic, G_logPath} \<and> length rs = 2 \<and>
       (\<forall>i<2. rs ! i = fst (run_goroutine fl env (gs ! i)
                  (snd (group_run (map (run_goroutine fl env) (take i gs)) (c, w))))) \<and>
       (r = None \<longleftrightarrow> (\<forall>i<2. rs ! i = None)) \<and>
       (\<forall>e. r = Some e \<longleftrightarrow> (\<exists>i<2. rs ! i = Some e \<and> (\<forall>j<i. rs ! j = None)))) \<and>
   (let gs = scheduled Setup_started sched';
        rs = fst (group_run (map (run_goroutine fl env) gs) (c, w));
        r = fst (Setup fl env sched' c w)
    in distinct gs \<and> set gs = {G_socketPath, G_ssh, G_sshPort, G_target} \<and> length rs = 4 \<and>
       (\<forall>i<4. rs ! i = fst (run_goroutine fl env (gs ! i)
                  (snd (group_run (map (run_goroutine fl env) (take i gs)) (c, w))))) \<and>
       (r = None \<longleftrightarrow> (\<forall>i<4. rs ! i = None)) \<and>
       (\<forall>e. r = Some e \<longleftrightarrow> (\<exists>i<4. rs ! i = Some e \<and> (\<forall>j<i. rs ! j = None))))"
proof -
  have d1: "distinct PreSetup_started" and d2: "distinct Setup_started"
    by (simp_all add: PreSetup_started_def Setup_started_def)
  have l1: "length PreSetup_started = 2" "set PreSetup_started = {G_basic, G_logPath}"
    and l2: "length Setup_started = 4"
      "set Setup_started = {G_socketPath, G_ssh, G_sshPort, G_target}"
    by (simp_all add: PreSetup_started_def Setup_started_def)
  note A = group_Wait_started [OF d1, of sched "run_goroutine fl env" "(c, w)", unfolded l1 Let_def]
  note B = group_Wait_started [OF d2, of sched' "run_goroutine fl env" "(c, w)", unfolded l2 Let_def]
  show ?thesis
    unfolding Let_def PreSetup_def Setup_def
    using A B by blast
qed

lemma ex_ancestors_log:
  "ancestors ''/var/log/ovm'' = [''/var/log/ovm'', ''/var'', ''/var/log'']"
  by (simp add: ancestors_def path_elems_def slash_def)

lemma ex_ancestors_tmp: "ancestors ''/tmp/ovm'' = [''/tmp/ovm'', ''/tmp'']"
  by (simp add: ancestors_def path_elems_def slash_def)

lemma ex_abs_log: "filepath_Abs env (flag_logPath ex_flags) = Inr ''/var/log/ovm''"
  by (simp add: filepath_Abs_def IsAbs_def ex_flags_def slash_def Clean_def)

lemma ex_env_denied_fault:
  "fault ex_env_denied k =
     (if k = RemoveAll ''/run/ovm'' \<or> k = MkdirAll ''/tmp/ovm'' then Some (Errno ''EACCES'') else None)"
  by (simp add: ex_env_denied_def)

lemma ex_scheduled:
  "scheduled PreSetup_started [] = [G_basic, G_logPath]"
  "scheduled PreSetup_started [G_logPath] = [G_logPath, G_basic]"
  "scheduled Setup_started [] = [G_socketPath, G_ssh, G_sshPort, G_target]"
  by (simp_all add: scheduled_def PreSetup_started_def Setup_started_def)

lemma ex_basic_denied:
  "fst (basic ex_flags ex_env_denied c w) = Some (Errno ''EACCES'')"
proof -
  have "fst (os_MkdirAll ex_env_denied ''/tmp/ovm'' w) = Some (Errno ''EACCES'')"
    by (simp add: MkdirAll_fst ex_env_denied_fault)
  then show ?thesis by (simp add: basic_mkdir_fails)
qed

lemma ex_logPath_notdir:
  "fst (logPath ex_flags ex_env_denied c ex_world_logfile) = Some (Errno ''ENOTDIR'')"
  unfolding logPath_unfold [OF ex_abs_log]
  by (simp add: MkdirAll_fst ex_env_denied_fault ex_ancestors_log not_a_dir_def ex_world_logfile_def)

lemma ex_socketPath_denied:
  "fst (socketPath ex_flags ex_env_denied c w) = Some (Errno ''EACCES'')"
proof -
  have a: "filepath_Abs ex_env_denied (flag_socketPath ex_flags) = Inr ''/run/ovm''"
    by (simp add: ex_flags_def abs_run_ovm)
  have "fst (os_RemoveAll ex_env_denied ''/run/ovm'' w) = Some (Errno ''EACCES'')"
    by (simp add: os_RemoveAll_def ex_env_denied_fault ends_in_dot_def Let_def suffix_to_prefix)
  then show ?thesis by (simp add: socketPath_error [OF a])
qed

lemma ex_basic_ok:
  assumes "fault env (MkdirAll ''/tmp/ovm'') = None" and "\<not> not_a_dir (fs w) ''/tmp/ovm''"
    and "\<not> not_a_dir (fs w) ''/tmp''" and "Executable env = Inr p" and "EvalSymlinks env p = Inr q"
  shows "basic fl env c w =
     (None,
      (basic_flags fl c)\<lparr>ExecutablePath := ToLower q,
                          LockFile := lock_file (ToLower q) (flag_name fl)\<rparr>,
      snd (os_MkdirAll env ''/tmp/ovm'' w))"
proof -
  have "fst (os_MkdirAll env ''/tmp/ovm'' w) = None"
    using assms(1-3) by (simp add: MkdirAll_fst ex_ancestors_tmp)
  then show ?thesis using assms(4,5) by (rule basic_success)
qed

lemma ex_env_simps:
  "Getwd ex_env = Inr ''/home/u''" "Executable ex_env = Inr ''/usr/local/bin/OVM''"
  "EvalSymlinks ex_env p = Inr p" "usable_port ex_env n = Inr (int n)"
  "keypair ex_env = (''PRIVATE KEY'', ''ssh-ed25519 AAAA ovm'' @ [CHR 0x0A])"
  by (simp_all add: ex_env_def)

lemma ex_world_fs: "fs ex_world q = None"
  by (simp add: ex_world_def)

lemma ex_PreSetup_ok: "fst (PreSetup ex_flags ex_env [] Init ex_world) = None"
proof -
  have b: "basic ex_flags ex_env Init ex_world =
     (None,
      (basic_flags ex_flags Init)\<lparr>ExecutablePath := ToLower ''/usr/local/bin/OVM'',
          LockFile := lock_file (ToLower ''/usr/local/bin/OVM'') (flag_name ex_flags)\<rparr>,
      snd (os_MkdirAll ex_env ''/tmp/ovm'' ex_world))"
    by (rule ex_basic_ok) (simp_all add: ex_fault ex_env_simps not_a_dir_def ex_world_def)
  have m: "fst (os_MkdirAll ex_env ''/tmp/ovm'' ex_world) = None"
    by (simp add: MkdirAll_fst ex_fault ex_ancestors_tmp not_a_dir_def ex_world_def)
  have l: "fst (logPath ex_flags ex_env c (snd (os_MkdirAll ex_env ''/tmp/ovm'' ex_world))) = None" for c
    unfolding logPath_unfold [OF ex_abs_log]
    by (simp add: MkdirAll_fst ex_fault ex_ancestors_log not_a_dir_def MkdirAll_fs [OF m]
        ex_ancestors_tmp ex_world_fs)
  show ?thesis
    by (simp add: PreSetup_def group_Wait_spec ex_scheduled group_run_Cons run_goroutine_def b l
        del: group_run.simps(2))
qed

theorem PreSetup_Setup_first_error_witness:
  "fst (basic ex_flags ex_env_denied Init ex_world_logfile) = Some (Errno ''EACCES'') \<and>
   fst (logPath ex_flags ex_env_denied Init ex_world_logfile) = Some (Errno ''ENOTDIR'') \<and>
   fst (PreSetup ex_flags ex_env_denied [] Init ex_world_logfile) = Some (Errno ''EACCES'') \<and>
   fst (PreSetup ex_flags ex_env_denied [G_logPath] Init ex_world_logfile) = Some (Errno ''ENOTDIR'') \<and>
   fst (Setup ex_flags ex_env_denied [] Init ex_world) = Some (Errno ''EACCES'') \<and>
   fst (PreSetup ex_flags ex_env [] Init ex_world) = None \<and>
   fst (group_run (map (run_goroutine ex_flags ex_env) [G_basic, G_logPath]) (Init, ex_world)) =
     [None, None]"
proof -
  note T1 = PreSetup_Setup_first_error [of "[]" ex_flags ex_env_denied Init ex_world_logfile "[]",
      unfolded Let_def ex_scheduled, THEN conjunct1]
  note T2 = PreSetup_Setup_first_error [of "[G_logPath]" ex_flags ex_env_denied Init ex_world_logfile "[]",
      unfolded Let_def ex_scheduled, THEN conjunct1]
  note T3 = PreSetup_Setup_first_error [of "[]" ex_flags ex_env_denied Init ex_world "[]",
      unfolded Let_def ex_scheduled, THEN conjunct2]
  note T4 = PreSetup_Setup_first_error [of "[]" ex_flags ex_env Init ex_world "[]",
      unfolded Let_def ex_scheduled, THEN conjunct1]
  have z: "(0::nat) < 2" "(0::nat) < 4" by simp_all
  have r1: "fst (group_run (map (run_goroutine ex_flags ex_env_denied) [G_basic, G_logPath])
       (Init, ex_world_logfile)) ! 0 = Some (Errno ''EACCES'')"
    by (simp add: group_run_Cons run_goroutine_def ex_basic_denied del: group_run.simps(2))
  have r2: "fst (group_run (map (run_goroutine ex_flags ex_env_denied) [G_logPath, G_basic])
       (Init, ex_world_logfile)) ! 0 = Some (Errno ''ENOTDIR'')"
    by (simp add: group_run_Cons run_goroutine_def ex_logPath_notdir del: group_run.simps(2))
  have r3: "fst (group_run (map (run_goroutine ex_flags ex_env_denied)
       [G_socketPath, G_ssh, G_sshPort, G_target]) (Init, ex_world)) ! 0 = Some (Errno ''EACCES'')"
    by (simp add: group_run_Cons run_goroutine_def ex_socketPath_denied del: group_run.simps(2))
  have w1: "fst (PreSetup ex_flags ex_env_denied [] Init ex_world_logfile) = Some (Errno ''EACCES'')"
    using T1 r1 z by blast
  have w2: "fst (PreSetup ex_flags ex_env_denied [G_logPath] Init ex_world_logfile) =
      Some (Errno ''ENOTDIR'')"
    using T2 r2 z by blast
  have w3: "fst (Setup ex_flags ex_env_denied [] Init ex_world) = Some (Errno ''EACCES'')"
    using T3 r3 z by blast
  have "\<forall>i<2. fst (group_run (map (run_goroutine ex_flags ex_env) [G_basic, G_logPath])
       (Init, ex_world)) ! i = None"
    using T4 ex_PreSetup_ok by blast
  moreover have "length (fst (group_run (map (run_goroutine ex_flags ex_env) [G_basic, G_logPath])
       (Init, ex_world))) = 2"
    by (simp only: group_run_length) simp
  ultimately have w4: "fst (group_run (map (run_goroutine ex_flags ex_env) [G_basic, G_logPath])
       (Init, ex_world)) = [None, None]"
    by (auto simp: list_eq_iff_nth_eq less_Suc_eq_0_disj numeral_2_eq_2)
  from w1 w2 w3 w4 ex_basic_denied ex_logPath_notdir ex_PreSetup_ok show ?thesis by simp
qed

subsection \<open>The lock file\<close>

















subsection \<open>Absolute paths\<close>

lemma IsAbs_Cons: "IsAbs (c # cs) \<longleftrightarrow> c = slash"
  by (simp add: IsAbs_def)

lemma IsAbs_Nil: "\<not> IsAbs []"
  by (simp add: IsAbs_def)

lemma IsAbs_Clean: "IsAbs p \<Longrightarrow> IsAbs (Clean p)"
  by (cases p) (simp_all add: Clean_def IsAbs_Cons IsAbs_Nil)

lemma IsAbs_Join: "IsAbs a \<Longrightarrow> IsAbs (Join a b)"
proof -
  assume a: "IsAbs a"
  then obtain cs where "a = slash # cs" by (cases a) (simp_all add: IsAbs_def)
  then have "Join a b = Clean (slash # cs @ slash # b)" by (simp add: Join_def)
  moreover have "IsAbs (Clean (slash # cs @ slash # b))"
    by (rule IsAbs_Clean) (simp add: IsAbs_Cons)
  ultimately show ?thesis by simp
qed

lemma IsAbs_filepath_Abs:
  assumes "abs_paths_env env" and "filepath_Abs env p = Inr q"
  shows "IsAbs q"
proof (cases "IsAbs p")
  case True
  with assms(2) show ?thesis by (auto simp: filepath_Abs_def IsAbs_Clean)
next
  case False
  with assms(2) obtain wd where wd: "Getwd env = Inr wd" and q: "q = Join wd p"
    by (auto simp: filepath_Abs_def split: sum.splits)
  from assms(1) wd have "IsAbs wd" by (simp add: abs_paths_env_def)
  then show ?thesis unfolding q by (rule IsAbs_Join)
qed

lemma lower_char_slash: "lower_char slash = slash"
  by (simp add: lower_char_def slash_def Let_def)

lemma IsAbs_ToLower: "IsAbs q \<Longrightarrow> IsAbs (ToLower q)"
  by (cases q) (simp_all add: ToLower_def IsAbs_def lower_char_slash)

lemma IsAbs_lock_file: "IsAbs (lock_file e n)"
  by (simp add: lock_file_def IsAbs_def slash_def Let_def)

subsection \<open>More on what each step does when it returns \<^verbatim>\<open>nil\<close>\<close>

lemma ssh_None_shape:
  assumes "ssh fl env c w = (None, c', w')"
  shows "\<exists>p w1 b. filepath_Abs env (flag_sshKeyPath fl) = Inr p \<and>
           os_MkdirAll env p w = (None, w1) \<and>
           ssh_keys fl env (c\<lparr>SSHKeyPath := p, SSHPrivateKeyPath := Join p (flag_name fl),
                  SSHPublicKeyPath := Join p (flag_name fl @ ''.pub'')\<rparr>) w1 = (None, w') \<and>
           c' = c\<lparr>SSHKeyPath := p, SSHPrivateKeyPath := Join p (flag_name fl),
                  SSHPublicKeyPath := Join p (flag_name fl @ ''.pub''),
                  SSHPublicKey := TrimSpace b\<rparr>"
proof (cases "filepath_Abs env (flag_sshKeyPath fl)")
  case (Inl e)
  with assms show ?thesis by (simp add: ssh_def)
next
  case (Inr p)
  define c1 where "c1 = c\<lparr>SSHKeyPath := p, SSHPrivateKeyPath := Join p (flag_name fl),
                  SSHPublicKeyPath := Join p (flag_name fl @ ''.pub'')\<rparr>"
  obtain r w1 where m: "os_MkdirAll env p w = (r, w1)" by (cases "os_MkdirAll env p w")
  have r: "r = None"
    using assms Inr m by (cases r) (simp_all add: ssh_def Let_def)
  note u = ssh_unfold [OF Inr m [unfolded r] c1_def]
  obtain k w2 where sk: "ssh_keys fl env c1 w1 = (k, w2)" by (cases "ssh_keys fl env c1 w1")
  have k: "k = None" using assms unfolding u sk by (cases k) simp_all
  obtain b where rd: "ssh_read env c1 w2 = Inr b"
    using assms unfolding u sk k by (cases "ssh_read env c1 w2") simp_all
  have e: "c' = c1\<lparr>SSHPublicKey := TrimSpace b\<rparr>" "w' = w2"
    using assms unfolding u sk k by (simp_all add: rd)
  show ?thesis
    using Inr m sk e unfolding r k c1_def by auto
qed

lemma sshPort_None:
  assumes "sshPort fl env c w = (None, c', w')"
  shows "\<exists>port. c' = c\<lparr>SSHPort := port\<rparr> \<and> fs w' = fs w"
  using assms
  by (auto simp: sshPort_def utils_FindUsablePort_def log_call_def split: sum.splits)

lemma target_None:
  assumes "target fl env c w = (None, c', w')"
  shows "\<exists>p w1 t w2 w3. filepath_Abs env (flag_targetPath fl) = Inr p \<and>
           os_MkdirAll env p w = (None, w1) \<and>
           newTarget env p (flag_kernelPath fl) (flag_initrdPath fl) (flag_rootfsPath fl)
             (Join p ''data.img'') (Join p ''versions.json'') w1 = (Inr t, w2) \<and>
           target_handle env t w2 = (None, w3) \<and>
           target_tmp_disk env c' w3 = (None, w') \<and>
           c' = target_fields fl (c\<lparr>TargetPath := p\<rparr>)"
proof (cases "filepath_Abs env (flag_targetPath fl)")
  case (Inl e)
  with assms show ?thesis by (simp add: target_def)
next
  case (Inr p)
  obtain r w1 where m: "os_MkdirAll env p w = (r, w1)" by (cases "os_MkdirAll env p w")
  have r: "r = None"
    using assms Inr m by (cases r) (simp_all add: target_def Let_def)
  define c2 where "c2 = target_fields fl (c\<lparr>TargetPath := p\<rparr>)"
  obtain nt w2 where n: "newTarget env p (flag_kernelPath fl) (flag_initrdPath fl)
      (flag_rootfsPath fl) (Join p ''data.img'') (Join p ''versions.json'') w1 = (nt, w2)"
    by (metis prod.collapse)
  have s1: "target fl env c w =
      (case nt of
         Inl err \<Rightarrow> (Some err, c2, w2)
       | Inr t \<Rightarrow>
          (case target_handle env t w2 of
             (Some err, w3) \<Rightarrow> (Some err, c2, w3)
           | (None, w3) \<Rightarrow> (case target_tmp_disk env c2 w3 of (r, w4) \<Rightarrow> (r, c2, w4))))"
    using Inr m n unfolding r c2_def
    by (simp add: target_def Let_def target_fields_simps)
  obtain t where nt: "nt = Inr t"
    using assms unfolding s1 by (cases nt) simp_all
  obtain h w3 where th: "target_handle env t w2 = (h, w3)" by (cases "target_handle env t w2")
  have h: "h = None"
    using assms unfolding s1 nt by (cases h) (simp_all add: th)
  have "target_tmp_disk env c2 w3 = (None, w')" and "c' = c2"
    using assms unfolding s1 nt by (simp_all add: th h split: prod.splits)
  then show ?thesis
    using Inr m n th unfolding r nt h c2_def by auto
qed

subsection \<open>Invariants of a run of the error group\<close>

lemma group_run_invariant:
  assumes "\<forall>r\<in>set (fst (group_run (map T gs) s)). r = None"
    and "\<forall>g\<in>set gs. \<forall>s s'. T g s = (None, s') \<longrightarrow> P s \<longrightarrow> P s'"
    and "P s"
  shows "P (snd (group_run (map T gs) s))"
  using assms
proof (induction gs arbitrary: s)
  case Nil
  then show ?case by simp
next
  case (Cons g gs)
  from Cons.prems(1) have r: "fst (T g s) = None"
    and rest: "\<forall>r\<in>set (fst (group_run (map T gs) (snd (T g s)))). r = None"
    by (simp_all add: group_run_Cons del: group_run.simps(2))
  from r have "T g s = (None, snd (T g s))" by (simp add: prod_eq_iff)
  with Cons.prems(2,3) have p: "P (snd (T g s))" by auto
  from Cons.prems(2) have step: "\<forall>g\<in>set gs. \<forall>s s'. T g s = (None, s') \<longrightarrow> P s \<longrightarrow> P s'"
    by simp
  from Cons.IH [OF rest step p] show ?case
    by (simp add: group_run_Cons del: group_run.simps(2))
qed

lemma group_run_establish:
  assumes "\<forall>r\<in>set (fst (group_run (map T gs) s)). r = None" and "g \<in> set gs"
    and "\<forall>g'\<in>set gs. \<forall>s s'. T g' s = (None, s') \<longrightarrow> g' = g \<or> P s \<longrightarrow> P s'"
  shows "P (snd (group_run (map T gs) s))"
  using assms
proof (induction gs arbitrary: s)
  case Nil
  then show ?case by simp
next
  case (Cons g0 gs)
  from Cons.prems(1) have r: "fst (T g0 s) = None"
    and rest: "\<forall>r\<in>set (fst (group_run (map T gs) (snd (T g0 s)))). r = None"
    by (simp_all add: group_run_Cons del: group_run.simps(2))
  from r have t: "T g0 s = (None, snd (T g0 s))" by (simp add: prod_eq_iff)
  from Cons.prems(3)
  have step: "\<forall>g'\<in>set gs. \<forall>s s'. T g' s = (None, s') \<longrightarrow> g' = g \<or> P s \<longrightarrow> P s'"
    by (meson list.set_intros(2))
  show ?case
  proof (cases "g0 = g")
    case True
    from Cons.prems(3) t True have p: "P (snd (T g0 s))" by auto
    from step have inv: "\<forall>g'\<in>set gs. \<forall>s s'. T g' s = (None, s') \<longrightarrow> P s \<longrightarrow> P s'"
      by blast
    from group_run_invariant [OF rest inv p] show ?thesis
      by (simp add: group_run_Cons del: group_run.simps(2))
  next
    case False
    with Cons.prems(2) have "g \<in> set gs" by simp
    from Cons.IH [OF rest this step] show ?thesis
      by (simp add: group_run_Cons del: group_run.simps(2))
  qed
qed

lemma group_Wait_None:
  assumes "group_Wait ts s = (None, s')"
  shows "\<forall>r\<in>set (fst (group_run ts s)). r = None" and "s' = snd (group_run ts s)"
proof -
  from assms have f: "first_error (fst (group_run ts s)) = None"
    using group_Wait_spec(1) [of ts s] by simp
  then show "\<forall>r\<in>set (fst (group_run ts s)). r = None"
    by (auto simp: first_error_None in_set_conv_nth)
  from assms show "s' = snd (group_run ts s)"
    using group_Wait_spec(2) [of ts s] by simp
qed

subsection \<open>Directories that stay\<close>

lemma MkdirAll_keeps_dir:
  assumes "os_MkdirAll env p w = (None, w')"
  shows "is_dir (fs w') p" and "is_dir (fs w) d \<Longrightarrow> is_dir (fs w') d"
  by (simp_all add: MkdirAll_ok(1) [OF assms] is_dir_def ancestors_self)

lemma RemoveAll_keeps_dir:
  assumes "\<not> at_or_below p d" and "is_dir (fs w) d"
  shows "is_dir (fs (snd (os_RemoveAll env p w))) d"
  using assms
  by (auto simp: os_RemoveAll_def Let_def log_call_def is_dir_def split: option.splits)

lemma GenerateSSHKey_keeps_dir:
  assumes "d \<noteq> Join dir nm" and "d \<noteq> Join dir (nm @ ''.pub'')" and "is_dir (fs w) d"
  shows "is_dir (fs (snd (utils_GenerateSSHKey env dir nm w))) d"
  using assms
  by (auto simp: utils_GenerateSSHKey_def Let_def log_call_def is_dir_def split: option.splits)

lemma ssh_keys_keeps_dir:
  assumes "\<not> at_or_below (SSHPrivateKeyPath c) d" and "\<not> at_or_below (SSHPublicKeyPath c) d"
    and "SSHPrivateKeyPath c = Join (SSHKeyPath c) (flag_name fl)"
    and "SSHPublicKeyPath c = Join (SSHKeyPath c) (flag_name fl @ ''.pub'')"
    and "is_dir (fs w) d"
  shows "is_dir (fs (snd (ssh_keys fl env c w))) d"
proof (cases "ssh_stat_failed env c w")
  case False
  then show ?thesis using assms(5) by (simp add: ssh_keys_no_regen)
next
  case True
  have n: "d \<noteq> Join (SSHKeyPath c) (flag_name fl)" "d \<noteq> Join (SSHKeyPath c) (flag_name fl @ ''.pub'')"
    using assms(1-4) at_or_below_refl by metis+
  have "is_dir (fs (snd (os_RemoveAll env (SSHPublicKeyPath c)
          (snd (os_RemoveAll env (SSHPrivateKeyPath c) w))))) d"
    using assms(1,2,5) by (intro RemoveAll_keeps_dir)
  then show ?thesis
    unfolding ssh_keys_regen [OF True] using n by (intro GenerateSSHKey_keeps_dir)
qed

lemma newTarget_fs: "fs (snd (newTarget env tp kp ip rp dp vp w)) = fs w"
  by (simp add: newTarget_def Let_def log_call_def)

lemma target_handle_keeps_dir:
  assumes "reconcile_keeps env d" and "target_handle env t w = (None, w')" and "is_dir (fs w) d"
  shows "is_dir (fs w') d"
proof -
  from assms(2) obtain f where f: "reconcile env t (fs w) = Inr f" and w': "fs w' = f"
    by (auto simp: target_handle_def Let_def log_call_def split: sum.splits)
  from assms(1,3) f have "is_dir f d" unfolding reconcile_keeps_def by blast
  then show ?thesis by (simp add: w')
qed

lemma target_tmp_disk_keeps_dir:
  assumes "target_tmp_disk env c w = (None, w')" and "is_dir (fs w) d"
  shows "is_dir (fs w') d"
proof (cases "isl (os_Stat env (DiskTmpPath c) w)")
  case False
  with assms show ?thesis by (simp add: target_tmp_disk_cases)
next
  case True
  with assms(1) have u: "utils_CreateSparseFile env (DiskTmpPath c) (2 ^ 40) w = (None, w')"
    by (simp add: target_tmp_disk_cases)
  then have "\<not> is_dir (fs w) (DiskTmpPath c)"
    and "fs w' = (fs w)(DiskTmpPath c \<mapsto> SparseFile (2 ^ 40))"
    by (auto simp: utils_CreateSparseFile_def Let_def log_call_def split: option.splits if_splits)
  with assms(2) show ?thesis by (auto simp: is_dir_def)
qed

subsection \<open>Each step writes its own fields\<close>

lemma run_goroutine_simps:
  "run_goroutine fl env G_basic (c, w) = basic fl env c w"
  "run_goroutine fl env G_logPath (c, w) = logPath fl env c w"
  "run_goroutine fl env G_socketPath (c, w) = socketPath fl env c w"
  "run_goroutine fl env G_ssh (c, w) = ssh fl env c w"
  "run_goroutine fl env G_sshPort (c, w) = sshPort fl env c w"
  "run_goroutine fl env G_target (c, w) = target fl env c w"
  by (simp_all add: run_goroutine_def)

lemma derived_paths_abs:
  assumes "abs_paths_env env" and "x \<in> set (derived_paths fl env g)"
  shows "IsAbs x"
proof (cases g)
  case G_basic
  with assms show ?thesis
    by (auto simp: abs_paths_env_def IsAbs_ToLower IsAbs_lock_file split: sum.splits)
next
  case G_logPath
  with assms show ?thesis
    by (auto simp: IsAbs_filepath_Abs split: sum.splits)
next
  case G_socketPath
  with assms show ?thesis
    by (auto simp: IsAbs_filepath_Abs IsAbs_Join split: sum.splits)
next
  case G_ssh
  with assms show ?thesis
    by (auto simp: IsAbs_filepath_Abs IsAbs_Join split: sum.splits)
next
  case G_sshPort
  with assms show ?thesis by simp
next
  case G_target
  with assms show ?thesis
    by (auto simp: IsAbs_filepath_Abs IsAbs_Join split: sum.splits)
qed

lemma path_fields_written:
  assumes "run_goroutine fl env g (c, w) = (None, c', w')"
  shows "path_fields g c' = derived_paths fl env g"
proof (cases g)
  case G_basic
  with assms have "basic fl env c w = (None, c', w')" by (simp add: run_goroutine_simps)
  from basic_None [OF this] show ?thesis by (auto simp: G_basic)
next
  case G_logPath
  with assms have "logPath fl env c w = (None, c', w')" by (simp add: run_goroutine_simps)
  from logPath_None [OF this] show ?thesis by (auto simp: G_logPath)
next
  case G_socketPath
  with assms have "socketPath fl env c w = (None, c', w')" by (simp add: run_goroutine_simps)
  from socketPath_None [OF this] show ?thesis by (auto simp: G_socketPath socket_fields_simps)
next
  case G_ssh
  with assms have "ssh fl env c w = (None, c', w')" by (simp add: run_goroutine_simps)
  from ssh_None_shape [OF this] show ?thesis by (auto simp: G_ssh)
next
  case G_sshPort
  then show ?thesis by simp
next
  case G_target
  with assms have "target fl env c w = (None, c', w')" by (simp add: run_goroutine_simps)
  from target_None [OF this] show ?thesis by (auto simp: G_target target_fields_simps)
qed

lemma path_fields_frame:
  assumes "run_goroutine fl env g' (c, w) = (None, c', w')" and "g' \<noteq> g"
  shows "path_fields g c' = path_fields g c"
proof (cases g')
  case G_basic
  with assms have "basic fl env c w = (None, c', w')" by (simp add: run_goroutine_simps)
  from basic_None [OF this] assms(2) show ?thesis
    by (cases g) (auto simp: G_basic basic_flags_def)
next
  case G_logPath
  with assms have "logPath fl env c w = (None, c', w')" by (simp add: run_goroutine_simps)
  from logPath_None [OF this] assms(2) show ?thesis
    by (cases g) (auto simp: G_logPath)
next
  case G_socketPath
  with assms have "socketPath fl env c w = (None, c', w')" by (simp add: run_goroutine_simps)
  from socketPath_None [OF this] assms(2) show ?thesis
    by (cases g) (auto simp: G_socketPath socket_fields_eq)
next
  case G_ssh
  with assms have "ssh fl env c w = (None, c', w')" by (simp add: run_goroutine_simps)
  from ssh_None_shape [OF this] assms(2) show ?thesis
    by (cases g) (auto simp: G_ssh)
next
  case G_sshPort
  with assms have "sshPort fl env c w = (None, c', w')" by (simp add: run_goroutine_simps)
  from sshPort_None [OF this] show ?thesis
    by (cases g) auto
next
  case G_target
  with assms have "target fl env c w = (None, c', w')" by (simp add: run_goroutine_simps)
  from target_None [OF this] assms(2) show ?thesis
    by (cases g) (auto simp: G_target target_fields_def)
qed

lemma EventSocketPath_written:
  assumes "run_goroutine fl env g (c, w) = (None, c', w')"
  shows "EventSocketPath c' = (if g = G_basic then flag_eventSocketPath fl else EventSocketPath c)"
proof (cases g)
  case G_basic
  with assms have "basic fl env c w = (None, c', w')" by (simp add: run_goroutine_simps)
  from basic_None [OF this] show ?thesis by (auto simp: G_basic basic_flags_def)
next
  case G_logPath
  with assms have "logPath fl env c w = (None, c', w')" by (simp add: run_goroutine_simps)
  from logPath_None [OF this] show ?thesis by (auto simp: G_logPath)
next
  case G_socketPath
  with assms have "socketPath fl env c w = (None, c', w')" by (simp add: run_goroutine_simps)
  from socketPath_None [OF this] show ?thesis by (auto simp: G_socketPath socket_fields_eq)
next
  case G_ssh
  with assms have "ssh fl env c w = (None, c', w')" by (simp add: run_goroutine_simps)
  from ssh_None_shape [OF this] show ?thesis by (auto simp: G_ssh)
next
  case G_sshPort
  with assms have "sshPort fl env c w = (None, c', w')" by (simp add: run_goroutine_simps)
  from sshPort_None [OF this] show ?thesis by (auto simp: G_sshPort)
next
  case G_target
  with assms have "target fl env c w = (None, c', w')" by (simp add: run_goroutine_simps)
  from target_None [OF this] show ?thesis by (auto simp: G_target target_fields_def)
qed

subsection \<open>Directories through the steps\<close>

lemma newTarget_fs_eq:
  assumes "newTarget env tp kp ip rp dp vp w = (r, w')"
  shows "fs w' = fs w"
  using newTarget_fs [of env tp kp ip rp dp vp w] by (simp add: assms)

lemma run_goroutine_keeps_dir:
  assumes run: "run_goroutine fl env g (c, w) = (None, c', w')"
    and k: "filepath_Abs env (flag_socketPath fl) = Inr sock \<longrightarrow> d = sock \<or> \<not> at_or_below sock d"
      "filepath_Abs env (flag_sshKeyPath fl) = Inr sp \<longrightarrow>
         \<not> at_or_below (Join sp (flag_name fl)) d \<and> \<not> at_or_below (Join sp (flag_name fl @ ''.pub'')) d"
      "reconcile_keeps env d"
    and sock: "g = G_socketPath \<longrightarrow> filepath_Abs env (flag_socketPath fl) = Inr sock"
    and sp: "g = G_ssh \<longrightarrow> filepath_Abs env (flag_sshKeyPath fl) = Inr sp"
    and d: "is_dir (fs w) d"
  shows "is_dir (fs w') d"
proof (cases g)
  case G_basic
  with run have "basic fl env c w = (None, c', w')" by (simp add: run_goroutine_simps)
  from basic_None [OF this] d show ?thesis by (auto dest: MkdirAll_keeps_dir(2))
next
  case G_logPath
  with run have "logPath fl env c w = (None, c', w')" by (simp add: run_goroutine_simps)
  from logPath_None [OF this] d show ?thesis by (auto dest: MkdirAll_keeps_dir(2))
next
  case G_socketPath
  with run have r: "socketPath fl env c w = (None, c', w')" by (simp add: run_goroutine_simps)
  from sock G_socketPath have a: "filepath_Abs env (flag_socketPath fl) = Inr sock" by simp
  from socketPath_None [OF r] a obtain w1 where
    rm: "os_RemoveAll env sock w = (None, w1)" and mk: "os_MkdirAll env sock w1 = (None, w')"
    by auto
  from k(1) a have "d = sock \<or> \<not> at_or_below sock d" by simp
  then show ?thesis
  proof
    assume "d = sock"
    then show ?thesis using MkdirAll_keeps_dir(1) [OF mk] by simp
  next
    assume "\<not> at_or_below sock d"
    from RemoveAll_keeps_dir [OF this d, of env] have "is_dir (fs w1) d" by (simp add: rm)
    then show ?thesis by (rule MkdirAll_keeps_dir(2) [OF mk])
  qed
next
  case G_ssh
  with run have r: "ssh fl env c w = (None, c', w')" by (simp add: run_goroutine_simps)
  from sp G_ssh have a: "filepath_Abs env (flag_sshKeyPath fl) = Inr sp" by simp
  define c1 where "c1 = c\<lparr>SSHKeyPath := sp, SSHPrivateKeyPath := Join sp (flag_name fl),
                  SSHPublicKeyPath := Join sp (flag_name fl @ ''.pub'')\<rparr>"
  from ssh_None_shape [OF r] a obtain w1 where
    mk: "os_MkdirAll env sp w = (None, w1)" and sk: "ssh_keys fl env c1 w1 = (None, w')"
    unfolding c1_def by auto
  have d1: "is_dir (fs w1) d" using d by (rule MkdirAll_keeps_dir(2) [OF mk])
  from k(2) a have n: "\<not> at_or_below (SSHPrivateKeyPath c1) d" "\<not> at_or_below (SSHPublicKeyPath c1) d"
    by (simp_all add: c1_def)
  have "is_dir (fs (snd (ssh_keys fl env c1 w1))) d"
    using n d1 by (intro ssh_keys_keeps_dir) (simp_all add: c1_def)
  then show ?thesis by (simp add: sk)
next
  case G_sshPort
  with run have "sshPort fl env c w = (None, c', w')" by (simp add: run_goroutine_simps)
  from sshPort_None [OF this] d show ?thesis by auto
next
  case G_target
  with run have "target fl env c w = (None, c', w')" by (simp add: run_goroutine_simps)
  from target_None [OF this] obtain p w1 t w2 w3 where
    mk: "os_MkdirAll env p w = (None, w1)"
    and nt: "newTarget env p (flag_kernelPath fl) (flag_initrdPath fl) (flag_rootfsPath fl)
             (Join p ''data.img'') (Join p ''versions.json'') w1 = (Inr t, w2)"
    and th: "target_handle env t w2 = (None, w3)"
    and td: "target_tmp_disk env c' w3 = (None, w')"
    by blast
  have "is_dir (fs w1) d" using d by (rule MkdirAll_keeps_dir(2) [OF mk])
  then have "is_dir (fs w2) d" by (simp add: newTarget_fs_eq [OF nt])
  then have "is_dir (fs w3) d" by (rule target_handle_keeps_dir [OF k(3) th])
  then show ?thesis by (rule target_tmp_disk_keeps_dir [OF td])
qed

lemma run_goroutine_makes_dir:
  assumes run: "run_goroutine fl env g (c, w) = (None, c', w')"
    and k: "filepath_Abs env (flag_sshKeyPath fl) = Inr sp \<longrightarrow>
         \<not> at_or_below (Join sp (flag_name fl)) d \<and> \<not> at_or_below (Join sp (flag_name fl @ ''.pub'')) d"
      "reconcile_keeps env d"
    and sp: "g = G_ssh \<longrightarrow> filepath_Abs env (flag_sshKeyPath fl) = Inr sp"
    and d: "g = G_basic \<and> d = ''/tmp/ovm'' \<or> g \<noteq> G_sshPort \<and> g \<noteq> G_basic \<and> d = hd (derived_paths fl env g)"
  shows "is_dir (fs w') d"
proof (cases g)
  case G_basic
  with run have "basic fl env c w = (None, c', w')" by (simp add: run_goroutine_simps)
  from basic_None [OF this] d G_basic show ?thesis by (auto dest: MkdirAll_keeps_dir(1))
next
  case G_logPath
  with run have "logPath fl env c w = (None, c', w')" by (simp add: run_goroutine_simps)
  from logPath_None [OF this] d G_logPath show ?thesis by (auto dest: MkdirAll_keeps_dir(1))
next
  case G_socketPath
  with run have r: "socketPath fl env c w = (None, c', w')" by (simp add: run_goroutine_simps)
  from socketPath_None [OF r] d G_socketPath show ?thesis by (auto dest: MkdirAll_keeps_dir(1))
next
  case G_ssh
  with run have r: "ssh fl env c w = (None, c', w')" by (simp add: run_goroutine_simps)
  from sp G_ssh have a: "filepath_Abs env (flag_sshKeyPath fl) = Inr sp" by simp
  with d G_ssh have dsp: "d = sp" by simp
  define c1 where "c1 = c\<lparr>SSHKeyPath := sp, SSHPrivateKeyPath := Join sp (flag_name fl),
                  SSHPublicKeyPath := Join sp (flag_name fl @ ''.pub'')\<rparr>"
  from ssh_None_shape [OF r] a obtain w1 where
    mk: "os_MkdirAll env sp w = (None, w1)" and sk: "ssh_keys fl env c1 w1 = (None, w')"
    unfolding c1_def by auto
  have d1: "is_dir (fs w1) d" using MkdirAll_keeps_dir(1) [OF mk] dsp by simp
  from k(1) a have n: "\<not> at_or_below (SSHPrivateKeyPath c1) d" "\<not> at_or_below (SSHPublicKeyPath c1) d"
    by (simp_all add: c1_def)
  have "is_dir (fs (snd (ssh_keys fl env c1 w1))) d"
    using n d1 by (intro ssh_keys_keeps_dir) (simp_all add: c1_def)
  then show ?thesis by (simp add: sk)
next
  case G_sshPort
  with d show ?thesis by simp
next
  case G_target
  with run have "target fl env c w = (None, c', w')" by (simp add: run_goroutine_simps)
  from target_None [OF this] obtain p w1 t w2 w3 where
    a: "filepath_Abs env (flag_targetPath fl) = Inr p"
    and mk: "os_MkdirAll env p w = (None, w1)"
    and nt: "newTarget env p (flag_kernelPath fl) (flag_initrdPath fl) (flag_rootfsPath fl)
             (Join p ''data.img'') (Join p ''versions.json'') w1 = (Inr t, w2)"
    and th: "target_handle env t w2 = (None, w3)"
    and td: "target_tmp_disk env c' w3 = (None, w')"
    by blast
  from a d G_target have "d = p" by simp
  then have "is_dir (fs w1) d" using MkdirAll_keeps_dir(1) [OF mk] by simp
  then have "is_dir (fs w2) d" by (simp add: newTarget_fs_eq [OF nt])
  then have "is_dir (fs w3) d" by (rule target_handle_keeps_dir [OF k(2) th])
  then show ?thesis by (rule target_tmp_disk_keeps_dir [OF td])
qed

subsection \<open>Through a whole group\<close>

lemma path_fields_step:
  assumes "run_goroutine fl env g' s = (None, s')"
    and "g' = g \<or> path_fields g (fst s) = derived_paths fl env g"
  shows "path_fields g (fst s') = derived_paths fl env g"
proof -
  obtain c w c' w' where s: "s = (c, w)" "s' = (c', w')" by (cases s, cases s') auto
  show ?thesis
  proof (cases "g' = g")
    case True
    with assms(1) show ?thesis by (simp add: s path_fields_written)
  next
    case False
    with assms show ?thesis by (simp add: s path_fields_frame)
  qed
qed

lemma path_fields_group:
  assumes "\<forall>r\<in>set (fst (group_run (map (run_goroutine fl env) gs) s)). r = None"
    and "g \<in> set gs \<or> path_fields g (fst s) = derived_paths fl env g"
  shows "path_fields g (fst (snd (group_run (map (run_goroutine fl env) gs) s))) =
         derived_paths fl env g"
proof (cases "g \<in> set gs")
  case True
  show ?thesis
    by (rule group_run_establish
          [where P = "\<lambda>s. path_fields g (fst s) = derived_paths fl env g", OF assms(1) True])
       (blast intro: path_fields_step)
next
  case False
  with assms(2) have p: "path_fields g (fst s) = derived_paths fl env g" by simp
  show ?thesis
    by (rule group_run_invariant
          [where P = "\<lambda>s. path_fields g (fst s) = derived_paths fl env g", OF assms(1) _ p])
       (blast intro: path_fields_step)
qed

lemma EventSocketPath_step:
  assumes "run_goroutine fl env g' s = (None, s')"
    and "g' = G_basic \<or> EventSocketPath (fst s) = flag_eventSocketPath fl"
  shows "EventSocketPath (fst s') = flag_eventSocketPath fl"
proof -
  obtain c w c' w' where s: "s = (c, w)" "s' = (c', w')" by (cases s, cases s') auto
  from assms show ?thesis by (auto simp: s EventSocketPath_written)
qed

lemma EventSocketPath_group:
  assumes "\<forall>r\<in>set (fst (group_run (map (run_goroutine fl env) gs) s)). r = None"
    and "G_basic \<in> set gs \<or> EventSocketPath (fst s) = flag_eventSocketPath fl"
  shows "EventSocketPath (fst (snd (group_run (map (run_goroutine fl env) gs) s))) =
         flag_eventSocketPath fl"
proof (cases "G_basic \<in> set gs")
  case True
  show ?thesis
    by (rule group_run_establish
          [where P = "\<lambda>s. EventSocketPath (fst s) = flag_eventSocketPath fl", OF assms(1) True])
       (blast intro: EventSocketPath_step)
next
  case False
  with assms(2) have p: "EventSocketPath (fst s) = flag_eventSocketPath fl" by simp
  show ?thesis
    by (rule group_run_invariant
          [where P = "\<lambda>s. EventSocketPath (fst s) = flag_eventSocketPath fl", OF assms(1) _ p])
       (blast intro: EventSocketPath_step)
qed

lemma PreSetup_dir_step:
  assumes "run_goroutine fl env g' s = (None, s')" and "g' = G_basic \<or> g' = G_logPath"
    and "g' = G_basic \<and> d = ''/tmp/ovm'' \<or> g' = G_logPath \<and> d = hd (derived_paths fl env G_logPath) \<or>
         is_dir (fs (snd s)) d"
  shows "is_dir (fs (snd s')) d"
proof -
  obtain c w c' w' where s: "s = (c, w)" "s' = (c', w')" by (cases s, cases s') auto
  from assms(2) show ?thesis
  proof
    assume g: "g' = G_basic"
    with assms(1) have "basic fl env c w = (None, c', w')" by (simp add: s run_goroutine_simps)
    from basic_None [OF this] obtain m where m: "os_MkdirAll env ''/tmp/ovm'' w = (None, w')"
      by blast
    from assms(3) g MkdirAll_keeps_dir [OF m] show ?thesis by (auto simp: s)
  next
    assume g: "g' = G_logPath"
    with assms(1) have "logPath fl env c w = (None, c', w')" by (simp add: s run_goroutine_simps)
    from logPath_None [OF this] obtain p where a: "filepath_Abs env (flag_logPath fl) = Inr p"
      and m: "os_MkdirAll env p w = (None, w')"
      by blast
    from assms(3) g a MkdirAll_keeps_dir [OF m] show ?thesis by (auto simp: s)
  qed
qed

lemma Setup_dir_step:
  assumes run: "run_goroutine fl env g' s = (None, s')"
    and a: "filepath_Abs env (flag_socketPath fl) = Inr sock"
      "filepath_Abs env (flag_sshKeyPath fl) = Inr sp"
    and k: "d = sock \<or> \<not> at_or_below sock d" "\<not> at_or_below (Join sp (flag_name fl)) d"
      "\<not> at_or_below (Join sp (flag_name fl @ ''.pub'')) d" "reconcile_keeps env d"
    and d: "g' \<noteq> G_sshPort \<and> g' \<noteq> G_basic \<and> d = hd (derived_paths fl env g') \<or> is_dir (fs (snd s)) d"
  shows "is_dir (fs (snd s')) d"
proof -
  obtain c w c' w' where s: "s = (c, w)" "s' = (c', w')" by (cases s, cases s') auto
  from d show ?thesis
  proof
    assume "g' \<noteq> G_sshPort \<and> g' \<noteq> G_basic \<and> d = hd (derived_paths fl env g')"
    then have "is_dir (fs w') d"
      using run a k by (intro run_goroutine_makes_dir [of fl env g' c w c' w' sp d]) (simp_all add: s)
    then show ?thesis by (simp add: s)
  next
    assume "is_dir (fs (snd s)) d"
    then have "is_dir (fs w') d"
      using run a k
      by (intro run_goroutine_keeps_dir [of fl env g' c w c' w' sock d sp]) (simp_all add: s)
    then show ?thesis by (simp add: s)
  qed
qed

lemma PreSetup_None:
  assumes "PreSetup fl env sched c w = (None, c1, w1)"
  shows "\<forall>r\<in>set (fst (group_run (map (run_goroutine fl env) (scheduled PreSetup_started sched)) (c, w))).
           r = None"
    and "(c1, w1) = snd (group_run (map (run_goroutine fl env) (scheduled PreSetup_started sched)) (c, w))"
    and "set (scheduled PreSetup_started sched) = {G_basic, G_logPath}"
proof -
  from assms have g: "group_Wait (map (run_goroutine fl env) (scheduled PreSetup_started sched)) (c, w) =
      (None, (c1, w1))"
    by (simp add: PreSetup_def)
  show "\<forall>r\<in>set (fst (group_run (map (run_goroutine fl env) (scheduled PreSetup_started sched)) (c, w))).
           r = None"
    by (rule group_Wait_None(1) [OF g])
  show "(c1, w1) = snd (group_run (map (run_goroutine fl env) (scheduled PreSetup_started sched)) (c, w))"
    by (rule group_Wait_None(2) [OF g])
  show "set (scheduled PreSetup_started sched) = {G_basic, G_logPath}"
    using scheduled_perm(2) [of PreSetup_started sched] by (simp add: PreSetup_started_def)
qed

lemma Setup_None:
  assumes "Setup fl env sched c w = (None, c1, w1)"
  shows "\<forall>r\<in>set (fst (group_run (map (run_goroutine fl env) (scheduled Setup_started sched)) (c, w))).
           r = None"
    and "(c1, w1) = snd (group_run (map (run_goroutine fl env) (scheduled Setup_started sched)) (c, w))"
    and "set (scheduled Setup_started sched) = {G_socketPath, G_ssh, G_sshPort, G_target}"
proof -
  from assms have g: "group_Wait (map (run_goroutine fl env) (scheduled Setup_started sched)) (c, w) =
      (None, (c1, w1))"
    by (simp add: Setup_def)
  show "\<forall>r\<in>set (fst (group_run (map (run_goroutine fl env) (scheduled Setup_started sched)) (c, w))).
           r = None"
    by (rule group_Wait_None(1) [OF g])
  show "(c1, w1) = snd (group_run (map (run_goroutine fl env) (scheduled Setup_started sched)) (c, w))"
    by (rule group_Wait_None(2) [OF g])
  show "set (scheduled Setup_started sched) = {G_socketPath, G_ssh, G_sshPort, G_target}"
    using scheduled_perm(2) [of Setup_started sched] by (simp add: Setup_started_def)
qed

lemma PreSetup_Setup_fields:
  assumes pre: "PreSetup fl env sched c w = (None, c1, w1)"
    and stp: "Setup fl env sched' c1 w1 = (None, c2, w2)"
  shows "path_fields g c2 = derived_paths fl env g"
    and "EventSocketPath c2 = flag_eventSocketPath fl"
    and "g = G_basic \<or> g = G_logPath \<Longrightarrow> path_fields g c1 = derived_paths fl env g"
proof -
  note p = PreSetup_None [OF pre] and s = Setup_None [OF stp]
  have one: "path_fields g c1 = derived_paths fl env g" if "g = G_basic \<or> g = G_logPath" for g
    using path_fields_group [OF p(1), of g] that p(3) by (auto simp: p(2) [symmetric])
  show "g = G_basic \<or> g = G_logPath \<Longrightarrow> path_fields g c1 = derived_paths fl env g"
    by (rule one)
  have "g \<in> set (scheduled Setup_started sched') \<or> path_fields g (fst (c1, w1)) = derived_paths fl env g"
    using one [of g] s(3) by (cases g) auto
  from path_fields_group [OF s(1) this] show "path_fields g c2 = derived_paths fl env g"
    by (simp add: s(2) [symmetric])
  have "EventSocketPath c1 = flag_eventSocketPath fl"
    using EventSocketPath_group [OF p(1)] p(3) by (simp add: p(2) [symmetric])
  then have "G_basic \<in> set (scheduled Setup_started sched') \<or>
      EventSocketPath (fst (c1, w1)) = flag_eventSocketPath fl" by simp
  from EventSocketPath_group [OF s(1) this] show "EventSocketPath c2 = flag_eventSocketPath fl"
    by (simp add: s(2) [symmetric])
qed

lemma PreSetup_dirs:
  assumes pre: "PreSetup fl env sched c w = (None, c1, w1)"
  shows "is_dir (fs w1) ''/tmp/ovm''" and "is_dir (fs w1) (LogPath c1)"
proof -
  note p = PreSetup_None [OF pre]
  have b: "G_basic \<in> set (scheduled PreSetup_started sched)"
    and l: "G_logPath \<in> set (scheduled PreSetup_started sched)"
    by (simp_all add: p(3))
  have "is_dir (fs (snd (snd (group_run (map (run_goroutine fl env)
          (scheduled PreSetup_started sched)) (c, w))))) ''/tmp/ovm''"
    by (rule group_run_establish
          [where P = "\<lambda>s. is_dir (fs (snd s)) ''/tmp/ovm''", OF p(1) b])
       (use p(3) in \<open>blast intro: PreSetup_dir_step\<close>)
  then show "is_dir (fs w1) ''/tmp/ovm''" by (simp add: p(2) [symmetric])
  have lp: "path_fields G_logPath c1 = derived_paths fl env G_logPath"
    using path_fields_group [OF p(1), of G_logPath] l by (simp add: p(2) [symmetric])
  then have h: "LogPath c1 = hd (derived_paths fl env G_logPath)"
    by (metis list.sel(1) path_fields.simps(2))
  have "is_dir (fs (snd (snd (group_run (map (run_goroutine fl env)
          (scheduled PreSetup_started sched)) (c, w))))) (hd (derived_paths fl env G_logPath))"
    by (rule group_run_establish
          [where P = "\<lambda>s. is_dir (fs (snd s)) (hd (derived_paths fl env G_logPath))", OF p(1) l])
       (use p(3) in \<open>blast intro: PreSetup_dir_step\<close>)
  then show "is_dir (fs w1) (LogPath c1)" by (simp add: p(2) [symmetric] h)
qed

text \<open>
  C1, as the code has it. After \<^verbatim>\<open>PreSetup\<close> and then \<^verbatim>\<open>Setup\<close> have returned \<^verbatim>\<open>nil\<close>,
  on a host whose working directory and executable path are absolute: every path field of
  the Context other than \<^verbatim>\<open>EventSocketPath\<close> is absolute; \<^verbatim>\<open>EventSocketPath\<close> is the flag
  as it was given; \<^verbatim>\<open>/tmp/ovm\<close> and \<^verbatim>\<open>LogPath\<close> are directories when \<^verbatim>\<open>PreSetup\<close> returns;
  and each of \<^verbatim>\<open>/tmp/ovm\<close>, \<^verbatim>\<open>LogPath\<close>, \<^verbatim>\<open>SocketPath\<close>, \<^verbatim>\<open>SSHKeyPath\<close> and
  \<^verbatim>\<open>TargetPath\<close> is a directory when \<^verbatim>\<open>Setup\<close> returns, provided no step of \<^verbatim>\<open>Setup\<close>
  removes or replaces it.
\<close>

theorem PreSetup_Setup_paths:
  assumes "abs_paths_env env"
    and "PreSetup fl env sched c w = (None, c1, w1)"
    and "Setup fl env sched' c1 w1 = (None, c2, w2)"
  shows "IsAbs (LockFile c2) \<and> IsAbs (ExecutablePath c2) \<and> IsAbs (LogPath c2) \<and>
     IsAbs (SocketPath c2) \<and> IsAbs (ForwardSocketPath c2) \<and> IsAbs (SocketNetworkPath c2) \<and>
     IsAbs (SocketInitrdVSockPath c2) \<and> IsAbs (SocketReadyPath c2) \<and>
     IsAbs (RestfulSocketPath c2) \<and> IsAbs (TimeSyncSocketPath c2) \<and>
     IsAbs (SSHAuthSocketPath c2) \<and>
     IsAbs (SSHKeyPath c2) \<and> IsAbs (SSHPrivateKeyPath c2) \<and> IsAbs (SSHPublicKeyPath c2) \<and>
     IsAbs (TargetPath c2) \<and> IsAbs (VersionsPath c2) \<and> IsAbs (KernelPath c2) \<and>
     IsAbs (InitrdPath c2) \<and> IsAbs (RootfsPath c2) \<and> IsAbs (DiskDataPath c2) \<and>
     IsAbs (DiskTmpPath c2) \<and>
     EventSocketPath c2 = flag_eventSocketPath fl \<and>
     is_dir (fs w1) ''/tmp/ovm'' \<and> is_dir (fs w1) (LogPath c2) \<and>
     (\<forall>d\<in>{''/tmp/ovm'', LogPath c2, SocketPath c2, SSHKeyPath c2, TargetPath c2}.
        Setup_keeps env c2 d \<longrightarrow> is_dir (fs w2) d)"
proof -
  note F = PreSetup_Setup_fields [OF assms(2,3)]
  note s = Setup_None [OF assms(3)]
  have ab: "IsAbs x" if "x \<in> set (path_fields g c2)" for x g
    using that derived_paths_abs [OF assms(1), of x fl g] by (simp add: F(1))
  have A: "IsAbs (LockFile c2) \<and> IsAbs (ExecutablePath c2) \<and> IsAbs (LogPath c2) \<and>
     IsAbs (SocketPath c2) \<and> IsAbs (ForwardSocketPath c2) \<and> IsAbs (SocketNetworkPath c2) \<and>
     IsAbs (SocketInitrdVSockPath c2) \<and> IsAbs (SocketReadyPath c2) \<and>
     IsAbs (RestfulSocketPath c2) \<and> IsAbs (TimeSyncSocketPath c2) \<and>
     IsAbs (SSHAuthSocketPath c2) \<and>
     IsAbs (SSHKeyPath c2) \<and> IsAbs (SSHPrivateKeyPath c2) \<and> IsAbs (SSHPublicKeyPath c2) \<and>
     IsAbs (TargetPath c2) \<and> IsAbs (VersionsPath c2) \<and> IsAbs (KernelPath c2) \<and>
     IsAbs (InitrdPath c2) \<and> IsAbs (RootfsPath c2) \<and> IsAbs (DiskDataPath c2) \<and>
     IsAbs (DiskTmpPath c2)"
    using ab [of _ G_basic] ab [of _ G_logPath] ab [of _ G_socketPath] ab [of _ G_ssh]
      ab [of _ G_target]
    by simp
  have lg: "LogPath c1 = LogPath c2"
  proof -
    have "path_fields G_logPath c1 = path_fields G_logPath c2"
      using F(3) [of G_logPath] F(1) [of G_logPath] by simp
    then show ?thesis by simp
  qed
  have D1: "is_dir (fs w1) ''/tmp/ovm''" "is_dir (fs w1) (LogPath c2)"
    using PreSetup_dirs [OF assms(2)] by (simp_all add: lg)
  obtain sock where sock: "filepath_Abs env (flag_socketPath fl) = Inr sock" "SocketPath c2 = sock"
    using F(1) [of G_socketPath] by (cases "filepath_Abs env (flag_socketPath fl)") simp_all
  obtain sp where sp: "filepath_Abs env (flag_sshKeyPath fl) = Inr sp" "SSHKeyPath c2 = sp"
    "SSHPrivateKeyPath c2 = Join sp (flag_name fl)"
    "SSHPublicKeyPath c2 = Join sp (flag_name fl @ ''.pub'')"
    using F(1) [of G_ssh] by (cases "filepath_Abs env (flag_sshKeyPath fl)") simp_all
  obtain tp where tp: "filepath_Abs env (flag_targetPath fl) = Inr tp" "TargetPath c2 = tp"
    using F(1) [of G_target] by (cases "filepath_Abs env (flag_targetPath fl)") simp_all
  have step: "is_dir (fs (snd s')) d"
    if "Setup_keeps env c2 d" and "run_goroutine fl env g' s = (None, s')"
      and "g' \<noteq> G_sshPort \<and> g' \<noteq> G_basic \<and> d = hd (derived_paths fl env g') \<or> is_dir (fs (snd s)) d"
    for d g' s s'
    using that sock sp by (intro Setup_dir_step [of fl env g' s s' sock sp d]) (simp_all add: Setup_keeps_def)
  have inv: "is_dir (fs w2) d" if k: "Setup_keeps env c2 d" and d: "is_dir (fs w1) d" for d
  proof -
    have "is_dir (fs (snd (snd (group_run (map (run_goroutine fl env)
            (scheduled Setup_started sched')) (c1, w1))))) d"
      by (rule group_run_invariant [where P = "\<lambda>s. is_dir (fs (snd s)) d", OF s(1)])
         (use step [OF k] d in auto)
    then show ?thesis by (simp add: s(2) [symmetric])
  qed
  have est: "is_dir (fs w2) d"
    if k: "Setup_keeps env c2 d" and g: "g = G_socketPath \<or> g = G_ssh \<or> g = G_target"
      and d: "d = hd (derived_paths fl env g)" for d g
  proof -
    have m: "g \<in> set (scheduled Setup_started sched')" using g by (auto simp: s(3))
    have n: "g \<noteq> G_sshPort \<and> g \<noteq> G_basic" using g by auto
    have "is_dir (fs (snd (snd (group_run (map (run_goroutine fl env)
            (scheduled Setup_started sched')) (c1, w1))))) d"
      by (rule group_run_establish [where P = "\<lambda>s. is_dir (fs (snd s)) d", OF s(1) m])
         (use step [OF k] n d in blast)
    then show ?thesis by (simp add: s(2) [symmetric])
  qed
  have D2: "\<forall>d\<in>{''/tmp/ovm'', LogPath c2, SocketPath c2, SSHKeyPath c2, TargetPath c2}.
        Setup_keeps env c2 d \<longrightarrow> is_dir (fs w2) d"
  proof (intro ballI impI)
    fix d
    assume d: "d \<in> {''/tmp/ovm'', LogPath c2, SocketPath c2, SSHKeyPath c2, TargetPath c2}"
      and k: "Setup_keeps env c2 d"
    from d consider "d = ''/tmp/ovm''" | "d = LogPath c2" | "d = SocketPath c2"
      | "d = SSHKeyPath c2" | "d = TargetPath c2" by blast
    then show "is_dir (fs w2) d"
    proof cases
      case 1
      then show ?thesis using inv [OF k] D1(1) by simp
    next
      case 2
      then show ?thesis using inv [OF k] D1(2) by simp
    next
      case 3
      then show ?thesis using est [OF k, of G_socketPath] sock by simp
    next
      case 4
      then show ?thesis using est [OF k, of G_ssh] sp by simp
    next
      case 5
      then show ?thesis using est [OF k, of G_target] tp by simp
    qed
  qed
  from A F(2) D1 D2 show ?thesis by blast
qed

subsection \<open>A run on a host that has run before\<close>

lemma MkdirAll_existing:
  assumes "fault env (MkdirAll p) = None" and "p \<noteq> []"
    and "\<forall>a\<in>set (ancestors p). fs w a = Some Dir"
  shows "fst (os_MkdirAll env p w) = None" and "fs (snd (os_MkdirAll env p w)) = fs w"
proof -
  have "\<not> list_ex (not_a_dir (fs w)) (ancestors p)"
    using assms(3) by (auto simp: list_ex_iff not_a_dir_def)
  then show m: "fst (os_MkdirAll env p w) = None"
    using assms(1,2) by (simp add: MkdirAll_fst)
  show "fs (snd (os_MkdirAll env p w)) = fs w"
    using assms(3) by (auto simp: MkdirAll_fs [OF m])
qed

lemma ex_full_fs:
  "fs ex_world_full ''/tmp'' = Some Dir" "fs ex_world_full ''/tmp/ovm'' = Some Dir"
  "fs ex_world_full ''/var'' = Some Dir" "fs ex_world_full ''/var/log'' = Some Dir"
  "fs ex_world_full ''/var/log/ovm'' = Some Dir"
  "fs ex_world_full ''/run'' = Some Dir" "fs ex_world_full ''/run/ovm'' = Some Dir"
  "fs ex_world_full ''/run/ovm/log'' = Some Dir"
  "fs ex_world_full ''/home'' = Some Dir" "fs ex_world_full ''/home/u'' = Some Dir"
  "fs ex_world_full ''/home/u/ssh'' = Some Dir"
  "fs ex_world_full ''/home/u/ssh/ovm'' = Some (File ''PRIVATE KEY'')"
  "fs ex_world_full ''/home/u/ssh/ovm.pub'' = Some (File (''ssh-ed25519 AAAA ovm'' @ [CHR 0x0A]))"
  "fs ex_world_full ''/t'' = Some Dir"
  "fs ex_world_full ''/t/tmp.img'' = Some (SparseFile (2 ^ 40))"
  "fs ex_world_full ''/run/ovm/ovm-podman.sock'' = Some (File [])"
  by (simp_all add: ex_world_full_def)

lemma ex_full_basic:
  assumes "fs w = fs ex_world_full"
  shows "fst (basic fl ex_env c w) = None"
    and "fs (snd (snd (basic fl ex_env c w))) = fs ex_world_full"
proof -
  have e: "\<forall>a\<in>set (ancestors ''/tmp/ovm''). fs w a = Some Dir"
    by (simp add: ex_ancestors_tmp assms ex_full_fs)
  note m = MkdirAll_existing [OF ex_fault _ e]
  have b: "basic fl ex_env c w =
     (None,
      (basic_flags fl c)\<lparr>ExecutablePath := ToLower ''/usr/local/bin/OVM'',
          LockFile := lock_file (ToLower ''/usr/local/bin/OVM'') (flag_name fl)\<rparr>,
      snd (os_MkdirAll ex_env ''/tmp/ovm'' w))"
    by (rule basic_success) (simp_all add: m ex_env_simps)
  show "fst (basic fl ex_env c w) = None" by (simp add: b)
  show "fs (snd (snd (basic fl ex_env c w))) = fs ex_world_full"
    using m(2) by (simp add: b assms)
qed

lemma ex_full_logPath:
  assumes "fs w = fs ex_world_full"
    and "flag_logPath fl = ''/var/log/ovm'' \<or> flag_logPath fl = ''/run/ovm/log''"
  shows "fst (logPath fl ex_env c w) = None"
    and "fs (snd (snd (logPath fl ex_env c w))) = fs ex_world_full"
proof -
  have an: "ancestors ''/run/ovm/log'' = [''/run/ovm/log'', ''/run'', ''/run/ovm'']"
    by (simp add: ancestors_def path_elems_def slash_def)
  from assms(2) obtain lp where lp: "flag_logPath fl = lp" "Clean lp = lp" "IsAbs lp" "lp \<noteq> []"
    "\<forall>a\<in>set (ancestors lp). fs w a = Some Dir"
    by (auto simp: Clean_def IsAbs_def slash_def ex_ancestors_log an assms(1) ex_full_fs)
  have a: "filepath_Abs ex_env (flag_logPath fl) = Inr lp"
    using lp by (simp add: filepath_Abs_def)
  note m = MkdirAll_existing [OF ex_fault lp(4,5)]
  show "fst (logPath fl ex_env c w) = None"
    unfolding logPath_unfold [OF a] by (simp add: m)
  show "fs (snd (snd (logPath fl ex_env c w))) = fs ex_world_full"
    unfolding logPath_unfold [OF a] using m(2) by (simp add: assms(1))
qed

lemma ex_full_ssh:
  assumes "fs w = fs ex_world_full" and "flag_sshKeyPath fl = ''ssh''" and "flag_name fl = ''ovm''"
  shows "fst (ssh fl ex_env c w) = None"
    and "fs (snd (snd (ssh fl ex_env c w))) = fs ex_world_full"
proof -
  have a: "filepath_Abs ex_env (flag_sshKeyPath fl) = Inr ''/home/u/ssh''"
    by (simp add: filepath_Abs_def IsAbs_def assms(2) ex_env_simps slash_def Join_def Clean_def)
  have e: "\<forall>a\<in>set (ancestors ''/home/u/ssh''). fs w a = Some Dir"
    by (simp add: ex_ancestors_ssh assms(1) ex_full_fs)
  note m = MkdirAll_existing [OF ex_fault _ e]
  define w1 where "w1 = snd (os_MkdirAll ex_env ''/home/u/ssh'' w)"
  have mk: "os_MkdirAll ex_env ''/home/u/ssh'' w = (None, w1)"
    using m(1) by (simp add: w1_def prod_eq_iff)
  have f1: "fs w1 = fs ex_world_full" using m(2) by (simp add: w1_def assms(1))
  define c1 where "c1 = c\<lparr>SSHKeyPath := ''/home/u/ssh'',
      SSHPrivateKeyPath := Join ''/home/u/ssh'' (flag_name fl),
      SSHPublicKeyPath := Join ''/home/u/ssh'' (flag_name fl @ ''.pub'')\<rparr>"
  have p: "SSHPrivateKeyPath c1 = ''/home/u/ssh/ovm''" "SSHPublicKeyPath c1 = ''/home/u/ssh/ovm.pub''"
    by (simp_all add: c1_def assms(3) ex_join_ssh)
  have "\<not> ssh_stat_failed ex_env c1 w1"
    by (simp add: ssh_stat_failed_def p os_Stat_def ex_fault f1 ex_full_fs)
  then have k: "ssh_keys fl ex_env c1 w1 = (None, w1)" by (rule ssh_keys_no_regen)
  have r: "ssh_read ex_env c1 w1 = Inr (''ssh-ed25519 AAAA ovm'' @ [CHR 0x0A])"
    by (simp add: ssh_read_def p os_Open_def io_ReadAll_def ex_fault f1 ex_full_fs)
  note u = ssh_unfold [OF a mk c1_def]
  show "fst (ssh fl ex_env c w) = None" unfolding u by (simp add: k r)
  show "fs (snd (snd (ssh fl ex_env c w))) = fs ex_world_full" unfolding u by (simp add: k r f1)
qed

lemma ex_full_sshPort:
  assumes "fs w = fs ex_world_full"
  shows "fst (sshPort fl ex_env c w) = None"
    and "fs (snd (snd (sshPort fl ex_env c w))) = fs ex_world_full"
  using assms
  by (simp_all add: sshPort_def utils_FindUsablePort_def ex_env_simps log_call_def)

lemma ex_full_target:
  assumes "fs w = fs ex_world_full" and "flag_targetPath fl = ''/t''"
  shows "fst (target fl ex_env c w) = None"
    and "fs (snd (snd (target fl ex_env c w))) = fs ex_world_full"
proof -
  have a: "filepath_Abs ex_env (flag_targetPath fl) = Inr ''/t''"
    by (simp add: filepath_Abs_def IsAbs_def assms(2) slash_def ex_Clean_t)
  have e: "\<forall>a\<in>set (ancestors ''/t''). fs w a = Some Dir"
    by (simp add: ex_ancestors_t assms(1) ex_full_fs)
  note m = MkdirAll_existing [OF ex_fault _ e]
  define w1 where "w1 = snd (os_MkdirAll ex_env ''/t'' w)"
  have mk: "os_MkdirAll ex_env ''/t'' w = (None, w1)"
    using m(1) by (simp add: w1_def prod_eq_iff)
  have f1: "fs w1 = fs ex_world_full" using m(2) by (simp add: w1_def assms(1))
  define t where "t = \<lparr>t_targetPath = ''/t'', t_kernelPath = flag_kernelPath fl,
      t_initrdPath = flag_initrdPath fl, t_rootfsPath = flag_rootfsPath fl,
      t_diskDataPath = Join ''/t'' ''data.img'', t_versionsPath = Join ''/t'' ''versions.json''\<rparr>"
  define w2 where "w2 = log_call (NewTarget t) w1"
  have n: "newTarget ex_env ''/t'' (flag_kernelPath fl) (flag_initrdPath fl) (flag_rootfsPath fl)
       (Join ''/t'' ''data.img'') (Join ''/t'' ''versions.json'') w1 = (Inr t, w2)"
    by (simp add: newTarget_def Let_def ex_fault t_def w2_def)
  define w3 where "w3 = (log_call (TargetHandle t) w2)\<lparr>fs := fs w2\<rparr>"
  have h: "target_handle ex_env t w2 = (None, w3)"
    by (simp add: target_handle_def Let_def ex_env_fault_more w3_def)
  have f3: "fs w3 = fs ex_world_full" by (simp add: w3_def w2_def log_call_def f1)
  have st: "\<not> isl (os_Stat ex_env (Join ''/t'' ''tmp.img'') w3)"
    by (simp add: os_Stat_def ex_fault ex_join_t f3 ex_full_fs)
  note u = target_step_noop [OF a mk n h st]
  show "fst (target fl ex_env c w) = None" by (simp add: u)
  show "fs (snd (snd (target fl ex_env c w))) = fs ex_world_full" by (simp add: u f3)
qed

lemma ex_full_socketPath:
  assumes "fs w = fs ex_world_full" and "flag_socketPath fl = ''/run/ovm''"
  shows "fst (socketPath fl ex_env c w) = None"
    and "fs (snd (snd (socketPath fl ex_env c w))) q =
           (if q \<in> set [''/run/ovm'', ''/run''] then Some Dir
            else if at_or_below ''/run/ovm'' q then None else fs ex_world_full q)"
proof -
  have a: "filepath_Abs ex_env (flag_socketPath fl) = Inr ''/run/ovm''"
    by (simp add: filepath_Abs_def IsAbs_def assms(2) slash_def ex_Clean_run_ovm)
  have r: "fst (os_RemoveAll ex_env ''/run/ovm'' w) = None"
    by (simp add: os_RemoveAll_def Let_def ends_in_dot_def suffix_to_prefix ex_fault)
  define w1 where "w1 = snd (os_RemoveAll ex_env ''/run/ovm'' w)"
  have f1: "fs w1 q = (if at_or_below ''/run/ovm'' q then None else fs ex_world_full q)" for q
    unfolding w1_def by (simp add: RemoveAll_fs [OF r] assms(1))
  have b: "at_or_below ''/run/ovm'' ''/run/ovm''" "\<not> at_or_below ''/run/ovm'' ''/run''"
    by (simp_all add: at_or_below_def path_elems_def slash_def)
  have m: "fst (os_MkdirAll ex_env ''/run/ovm'' w1) = None"
    by (simp add: MkdirAll_fst ex_fault ex_ancestors_run_ovm not_a_dir_def f1 b ex_full_fs)
  have e: "fst (socketPath fl ex_env c w) = None"
    by (simp add: socketPath_error [OF a] r m [unfolded w1_def])
  show "fst (socketPath fl ex_env c w) = None" by (rule e)
  obtain c' w' where s: "socketPath fl ex_env c w = (None, c', w')"
    using e by (metis prod.collapse)
  from socketPath_None [OF s] a have "os_MkdirAll ex_env ''/run/ovm'' w1 = (None, w')"
    by (auto simp: w1_def dest: sndI)
  then have "fs w' q = (if q \<in> set (ancestors ''/run/ovm'') then Some Dir else fs w1 q)"
    by (simp add: MkdirAll_ok(1))
  then show "fs (snd (snd (socketPath fl ex_env c w))) q =
           (if q \<in> set [''/run/ovm'', ''/run''] then Some Dir
            else if at_or_below ''/run/ovm'' q then None else fs ex_world_full q)"
    by (simp add: s ex_ancestors_run_ovm f1)
qed

lemma group_run_snoc:
  "group_run (ts @ [t]) s =
     (fst (group_run ts s) @ [fst (t (snd (group_run ts s)))], snd (t (snd (group_run ts s))))"
  by (induction ts arbitrary: s) (simp_all add: group_run_Cons del: group_run.simps(2))

lemma first_error_all_None: "\<forall>r\<in>set rs. r = None \<Longrightarrow> first_error rs = None"
  by (simp add: first_error_None)

lemma ex_full_step:
  assumes "fs (snd s) = fs ex_world_full"
    and "flag_logPath fl = ''/var/log/ovm'' \<or> flag_logPath fl = ''/run/ovm/log''"
    and "flag_sshKeyPath fl = ''ssh''" and "flag_name fl = ''ovm''" and "flag_targetPath fl = ''/t''"
    and "g \<noteq> G_socketPath"
  shows "fst (run_goroutine fl ex_env g s) = None"
    and "fs (snd (snd (run_goroutine fl ex_env g s))) = fs ex_world_full"
proof -
  obtain c w where s: "s = (c, w)" by (cases s)
  with assms(1) have f: "fs w = fs ex_world_full" by simp
  show "fst (run_goroutine fl ex_env g s) = None"
    using assms(6)
    by (cases g)
       (simp_all add: s run_goroutine_simps ex_full_basic [OF f] ex_full_logPath [OF f assms(2)]
          ex_full_ssh [OF f assms(3,4)] ex_full_sshPort [OF f] ex_full_target [OF f assms(5)])
  show "fs (snd (snd (run_goroutine fl ex_env g s))) = fs ex_world_full"
    using assms(6)
    by (cases g)
       (simp_all add: s run_goroutine_simps ex_full_basic [OF f] ex_full_logPath [OF f assms(2)]
          ex_full_ssh [OF f assms(3,4)] ex_full_sshPort [OF f] ex_full_target [OF f assms(5)])
qed

lemma ex_full_chain:
  assumes "fs (snd s) = fs ex_world_full"
    and "flag_logPath fl = ''/var/log/ovm'' \<or> flag_logPath fl = ''/run/ovm/log''"
    and "flag_sshKeyPath fl = ''ssh''" and "flag_name fl = ''ovm''" and "flag_targetPath fl = ''/t''"
    and "G_socketPath \<notin> set gs"
  shows "(\<forall>r\<in>set (fst (group_run (map (run_goroutine fl ex_env) gs) s)). r = None) \<and>
         fs (snd (snd (group_run (map (run_goroutine fl ex_env) gs) s))) = fs ex_world_full"
  using assms(1,6)
proof (induction gs arbitrary: s)
  case Nil
  then show ?case by simp
next
  case (Cons g gs)
  from Cons.prems(2) have g: "g \<noteq> G_socketPath" and gs: "G_socketPath \<notin> set gs" by auto
  note st = ex_full_step [OF Cons.prems(1) assms(2-5) g]
  from Cons.IH [OF st(2) gs] st(1) show ?case
    by (simp add: group_run_Cons del: group_run.simps(2))
qed

lemma ex_run:
  assumes "flag_logPath fl = ''/var/log/ovm'' \<or> flag_logPath fl = ''/run/ovm/log''"
    and "flag_sshKeyPath fl = ''ssh''" and "flag_name fl = ''ovm''" and "flag_targetPath fl = ''/t''"
    and "flag_socketPath fl = ''/run/ovm''"
  shows "fst (ex_pre fl) = None" and "fst (ex_post fl) = None"
    and "fs (snd (snd (ex_post fl))) q =
           (if q \<in> set [''/run/ovm'', ''/run''] then Some Dir
            else if at_or_below ''/run/ovm'' q then None else fs ex_world_full q)"
proof -
  let ?T = "run_goroutine fl ex_env"
  have p: "(\<forall>r\<in>set (fst (group_run (map ?T [G_basic, G_logPath]) (Init, ex_world_full))). r = None) \<and>
      fs (snd (snd (group_run (map ?T [G_basic, G_logPath]) (Init, ex_world_full)))) = fs ex_world_full"
    by (rule ex_full_chain [OF _ assms(1-4)]) simp_all
  from p have "first_error (fst (group_run (map ?T [G_basic, G_logPath]) (Init, ex_world_full))) = None"
    by (blast intro: first_error_all_None)
  then show pre: "fst (ex_pre fl) = None"
    by (simp only: ex_pre_def PreSetup_def group_Wait_spec ex_scheduled)
  have s1: "snd (ex_pre fl) = snd (group_run (map ?T [G_basic, G_logPath]) (Init, ex_world_full))"
    by (simp only: ex_pre_def PreSetup_def group_Wait_spec ex_scheduled)
  have f1: "fs (snd (snd (ex_pre fl))) = fs ex_world_full"
    using p by (simp only: s1)
  have sc: "scheduled Setup_started ex_sched = [G_ssh, G_sshPort, G_target] @ [G_socketPath]"
    by (simp add: scheduled_def Setup_started_def ex_sched_def)
  define s0 where "s0 = snd (ex_pre fl)"
  have f0: "fs (snd s0) = fs ex_world_full" using f1 by (simp add: s0_def)
  have q: "(\<forall>r\<in>set (fst (group_run (map ?T [G_ssh, G_sshPort, G_target]) s0)). r = None) \<and>
      fs (snd (snd (group_run (map ?T [G_ssh, G_sshPort, G_target]) s0))) = fs ex_world_full"
    by (rule ex_full_chain [OF f0 assms(1-4)]) simp
  define s3 where "s3 = snd (group_run (map ?T [G_ssh, G_sshPort, G_target]) s0)"
  have f3: "fs (snd s3) = fs ex_world_full" using q by (simp add: s3_def)
  have post: "ex_post fl = group_Wait (map ?T ([G_ssh, G_sshPort, G_target] @ [G_socketPath])) s0"
    by (simp only: ex_post_def Setup_def sc s0_def prod.collapse)
  have gr: "group_run (map ?T ([G_ssh, G_sshPort, G_target] @ [G_socketPath])) s0 =
      (fst (group_run (map ?T [G_ssh, G_sshPort, G_target]) s0) @ [fst (?T G_socketPath s3)],
       snd (?T G_socketPath s3))"
    using group_run_snoc [of "map ?T [G_ssh, G_sshPort, G_target]" "?T G_socketPath" s0]
    by (simp only: map_append list.map s3_def)
  have sk: "?T G_socketPath s3 = socketPath fl ex_env (fst s3) (snd s3)"
    by (simp add: run_goroutine_def case_prod_beta)
  note so = ex_full_socketPath [OF f3 assms(5), of "fst s3"]
  show "fst (ex_post fl) = None"
    unfolding post group_Wait_spec gr using q so(1)
    by (simp only: fst_conv sk) (simp add: first_error_None nth_append less_Suc_eq numeral_3_eq_3
        del: group_run.simps)
  show "fs (snd (snd (ex_post fl))) q =
           (if q \<in> set [''/run/ovm'', ''/run''] then Some Dir
            else if at_or_below ''/run/ovm'' q then None else fs ex_world_full q)"
    unfolding post group_Wait_spec gr by (simp only: snd_conv sk so(2))
qed

lemma ex_abs_paths_env: "abs_paths_env ex_env"
  by (simp add: abs_paths_env_def ex_env_def IsAbs_def slash_def)

lemma ex_reconcile_keeps: "reconcile_keeps ex_env d"
  by (simp add: reconcile_keeps_def ex_env_fault_more)

lemma ex_flags_nested_simps:
  "flag_logPath ex_flags_nested = ''/run/ovm/log''" "flag_sshKeyPath ex_flags_nested = ''ssh''"
  "flag_name ex_flags_nested = ''ovm''" "flag_targetPath ex_flags_nested = ''/t''"
  "flag_socketPath ex_flags_nested = ''/run/ovm''"
  "flag_eventSocketPath ex_flags_nested = ''event.sock''"
  by (simp_all add: ex_flags_nested_def ex_flags_def)

lemma ex_flags_simps:
  "flag_logPath ex_flags = ''/var/log/ovm''" "flag_sshKeyPath ex_flags = ''ssh''"
  "flag_name ex_flags = ''ovm''" "flag_targetPath ex_flags = ''/t''"
  "flag_socketPath ex_flags = ''/run/ovm''"
  by (simp_all add: ex_flags_def)

lemma ex_outcomes:
  assumes "fst (ex_pre fl) = None" and "fst (ex_post fl) = None"
  shows "PreSetup fl ex_env [] Init ex_world_full = (None, fst (snd (ex_pre fl)), snd (snd (ex_pre fl)))"
    and "Setup fl ex_env ex_sched (fst (snd (ex_pre fl))) (snd (snd (ex_pre fl))) =
           (None, fst (snd (ex_post fl)), snd (snd (ex_post fl)))"
proof -
  show "PreSetup fl ex_env [] Init ex_world_full = (None, fst (snd (ex_pre fl)), snd (snd (ex_pre fl)))"
    using assms(1) by (simp add: ex_pre_def prod_eq_iff)
  show "Setup fl ex_env ex_sched (fst (snd (ex_pre fl))) (snd (snd (ex_pre fl))) =
           (None, fst (snd (ex_post fl)), snd (snd (ex_post fl)))"
    using assms(2) by (simp add: ex_post_def prod_eq_iff)
qed

text \<open>
  C1 as the claim states it fails. With the event socket given as \<^verbatim>\<open>event.sock\<close> and the
  log directory inside the socket directory, \<^verbatim>\<open>PreSetup\<close> and \<^verbatim>\<open>Setup\<close> return \<^verbatim>\<open>nil\<close>;
  \<^verbatim>\<open>EventSocketPath\<close> is not absolute, and nothing exists at \<^verbatim>\<open>LogPath\<close>, which the reset
  of the socket directory has removed.
\<close>

theorem PreSetup_Setup_paths_counterexample:
  "abs_paths_env ex_env \<and>
   fst (ex_pre ex_flags_nested) = None \<and>
   fst (ex_post ex_flags_nested) = None \<and>
   EventSocketPath (fst (snd (ex_post ex_flags_nested))) = ''event.sock'' \<and>
   \<not> IsAbs (EventSocketPath (fst (snd (ex_post ex_flags_nested)))) \<and>
   LogPath (fst (snd (ex_post ex_flags_nested))) = ''/run/ovm/log'' \<and>
   fs (snd (snd (ex_post ex_flags_nested))) (LogPath (fst (snd (ex_post ex_flags_nested)))) = None"
proof -
  note r = ex_run [of ex_flags_nested, unfolded ex_flags_nested_simps, simplified]
  note o = ex_outcomes [OF r(1,2)]
  note F = PreSetup_Setup_fields [OF o]
  have a: "filepath_Abs ex_env (flag_logPath ex_flags_nested) = Inr ''/run/ovm/log''"
    by (simp add: filepath_Abs_def ex_flags_nested_simps IsAbs_def slash_def Clean_def)
  have l: "LogPath (fst (snd (ex_post ex_flags_nested))) = ''/run/ovm/log''"
    using F(1) [of G_logPath] by (simp add: a)
  have e: "EventSocketPath (fst (snd (ex_post ex_flags_nested))) = ''event.sock''"
    using F(2) by (simp add: ex_flags_nested_simps)
  have b: "at_or_below ''/run/ovm'' ''/run/ovm/log''"
    by (simp add: at_or_below_def path_elems_def slash_def)
  have n: "fs (snd (snd (ex_post ex_flags_nested))) ''/run/ovm/log'' = None"
    by (simp add: r(3) b)
  have "\<not> IsAbs ''event.sock''" by (simp add: IsAbs_def slash_def)
  with r(1,2) l e n ex_abs_paths_env show ?thesis by simp
qed

theorem PreSetup_Setup_paths_witness:
  "abs_paths_env ex_env \<and>
   fst (ex_pre ex_flags) = None \<and>
   fst (ex_post ex_flags) = None \<and>
   IsAbs (LockFile (fst (snd (ex_post ex_flags)))) \<and>
   IsAbs (ExecutablePath (fst (snd (ex_post ex_flags)))) \<and>
   LogPath (fst (snd (ex_post ex_flags))) = ''/var/log/ovm'' \<and>
   SocketPath (fst (snd (ex_post ex_flags))) = ''/run/ovm'' \<and>
   SSHKeyPath (fst (snd (ex_post ex_flags))) = ''/home/u/ssh'' \<and>
   TargetPath (fst (snd (ex_post ex_flags))) = ''/t'' \<and>
   is_dir (fs (snd (snd (ex_post ex_flags)))) ''/tmp/ovm'' \<and>
   is_dir (fs (snd (snd (ex_post ex_flags)))) ''/var/log/ovm'' \<and>
   is_dir (fs (snd (snd (ex_post ex_flags)))) ''/run/ovm'' \<and>
   is_dir (fs (snd (snd (ex_post ex_flags)))) ''/home/u/ssh'' \<and>
   is_dir (fs (snd (snd (ex_post ex_flags)))) ''/t''"
proof -
  let ?c2 = "fst (snd (ex_post ex_flags))" and ?w2 = "snd (snd (ex_post ex_flags))"
  note r = ex_run [of ex_flags, unfolded ex_flags_simps, simplified]
  note o = ex_outcomes [OF r(1,2)]
  note F = PreSetup_Setup_fields [OF o]
  note T = PreSetup_Setup_paths [OF ex_abs_paths_env o]
  have a: "filepath_Abs ex_env (flag_socketPath ex_flags) = Inr ''/run/ovm''"
    by (simp add: filepath_Abs_def ex_flags_simps IsAbs_def slash_def Clean_def)
  have fl: "LogPath ?c2 = ''/var/log/ovm''"
    using F(1) [of G_logPath] by (simp add: ex_abs_log)
  have fs: "SocketPath ?c2 = ''/run/ovm''"
    using F(1) [of G_socketPath] by (simp add: a)
  have fk: "SSHKeyPath ?c2 = ''/home/u/ssh''" "SSHPrivateKeyPath ?c2 = ''/home/u/ssh/ovm''"
    "SSHPublicKeyPath ?c2 = ''/home/u/ssh/ovm.pub''"
    using F(1) [of G_ssh] by (simp_all add: ex_abs_ssh ex_name ex_join_ssh)
  have ft: "TargetPath ?c2 = ''/t''"
    using F(1) [of G_target] by (simp add: ex_abs_t)
  have k: "Setup_keeps ex_env ?c2 ''/tmp/ovm''" "Setup_keeps ex_env ?c2 ''/var/log/ovm''"
    "Setup_keeps ex_env ?c2 ''/run/ovm''" "Setup_keeps ex_env ?c2 ''/home/u/ssh''"
    "Setup_keeps ex_env ?c2 ''/t''"
    by (simp_all add: Setup_keeps_def fs fk ex_reconcile_keeps at_or_below_def path_elems_def slash_def)
  from T have ab: "IsAbs (LockFile ?c2)" "IsAbs (ExecutablePath ?c2)" by blast+
  from T have D: "\<forall>d\<in>{''/tmp/ovm'', LogPath ?c2, SocketPath ?c2, SSHKeyPath ?c2, TargetPath ?c2}.
        Setup_keeps ex_env ?c2 d \<longrightarrow> is_dir (fs ?w2) d" by blast
  have d: "is_dir (fs ?w2) ''/tmp/ovm''" "is_dir (fs ?w2) ''/var/log/ovm''"
    "is_dir (fs ?w2) ''/run/ovm''" "is_dir (fs ?w2) ''/home/u/ssh''" "is_dir (fs ?w2) ''/t''"
    using D k by (simp_all add: fl fs fk ft)
  from r(1,2) ab fl fs fk(1) ft d ex_abs_paths_env show ?thesis by simp
qed

end
